theory Spec2Isabelle
  imports Main "HOL-Library.AList"
begin

section \<open>Data model of the runtime widget loader\<close>

text \<open>
  The service \<open>RuntimeWidgetLoaderService\<close> is embedded as pure functions over an explicit
  world. Everything the service reads from outside (the logged-in user, the fetched
  application list, the URL, which imports succeed, what the bundles export, what the
  host registry emits) is a field of the record \<open>env\<close>; everything it mutates (the load
  signal, the factory table, the host registry, the inventory of runtime contexts) is a
  field of the record \<open>world\<close>; everything it says or requests (progress messages,
  console errors, alerts, imports, compilations, registrations, inventory updates) is an
  \<open>event\<close> appended to a chronological log.
\<close>

subsection \<open>Records fetched from the platform\<close>

text \<open>\<open>IApplication & {widgetContextPaths?: string[]}\<close>; an absent list is \<open>None\<close>.\<close>

record IApplication =
  app_id :: string
  contextPath :: string
  availability :: string
  app_widgetContextPaths :: "string list option"

text \<open>\<open>IAppRuntimeContext\<close>, the managed objects of type \<open>app_runtimeContext\<close>.\<close>

record IAppRuntimeContext =
  rc_id :: string
  appId :: string
  widgetContextPaths :: "string list option"

subsection \<open>Components, modules and bundles\<close>

text \<open>A component class is identified by its name.\<close>

type_synonym component = string

record DynamicComponentDefinition =
  def_id :: string
  component :: component
  configComponent :: "component option"
  isRuntimeLoaded :: bool

text \<open>A component factory remembers the module whose resolver built it.\<close>

datatype ComponentFactory = Factory string component

record WidgetComponentFactoriesAndInjector =
  componentFactory :: ComponentFactory
  configComponentFactory :: "ComponentFactory option"
  injector :: string

text \<open>
  Definitions are objects: \<open>loadWidget\<close> writes \<open>isRuntimeLoaded\<close> into the object it is
  given, and the host registry holds the same objects. A definition is therefore named by
  a reference, and the world has the store that gives every reference its object.
\<close>

type_synonym ref = nat

text \<open>
  An entry of the multi-provider \<open>HOOK_COMPONENTS\<close> is one definition or an array of
  definitions (\<open>Array.isArray\<close>).
\<close>

datatype hook_item = One ref | Many "ref list"

text \<open>
  \<open>NgModuleRef\<close>: the module instance. \<open>entryComponents\<close> are the component classes its
  \<open>componentFactoryResolver\<close> can resolve (any other class makes
  \<open>resolveComponentFactory\<close> throw); \<open>hook_components\<close> is what
  \<open>ngModule.injector.get(HOOK_COMPONENTS)\<close> returns (\<open>None\<close>: a nullish value);
  \<open>module_injector\<close> names its injector.
\<close>

record NgModuleRef =
  module_injector :: string
  entryComponents :: "component list"
  hook_components :: "hook_item list option"

text \<open>
  One element of \<open>__annotations__\<close>: \<open>BadAnnotation\<close> is a value on which
  \<open>annotation.__proto__.ngMetadataName\<close> throws a TypeError (\<open>null\<close>, \<open>undefined\<close>, an object
  without prototype); otherwise the element has an \<open>ngMetadataName\<close>, or none.
\<close>

datatype annotation = BadAnnotation | Metadata "string option"

text \<open>
  The own property \<open>__annotations__\<close> of an exported value: absent, present with a value
  that has no method \<open>some\<close> (not an array), or an array of annotations.
\<close>

datatype annotations_property = NoAnnotations | NotAnArray | Annotations "annotation list"

text \<open>
  A value exported by a bundle. \<open>Nullish\<close> is \<open>null\<close> or \<open>undefined\<close> and
  \<open>NoHasOwnProperty\<close> is an object without the method (\<open>Object.create(null)\<close>): on both
  \<open>exportedObj.hasOwnProperty\<close> throws a TypeError. Any other value has its
  \<open>__annotations__\<close>, and compiling and instantiating it yields a module instance or throws
  (\<open>None\<close>).
\<close>

datatype exportedObj =
    Nullish
  | NoHasOwnProperty
  | Exported annotations_property "NgModuleRef option"

text \<open>The module namespace object of a bundle, in the order of \<open>Object.keys\<close>.\<close>

type_synonym jsModule = "(string \<times> exportedObj) list"

subsection \<open>The environment and the world\<close>

record env =
  currentUser :: "string option"
  applications :: "IApplication list"
  urlContextPath :: "string option"
  manifests :: "string list"
  bundles :: "(string \<times> jsModule) list"
  state_emissions :: "ref list list"

text \<open>
  \<^item> \<open>currentUser\<close>: the first non-null user that \<open>appStateService.currentUser\<close> emits;
    \<open>None\<close> when nobody ever logs in.
  \<^item> \<open>applications\<close>: the \<open>applications\<close> array of the fetched JSON.
  \<^item> \<open>urlContextPath\<close>: the capture group of \<open>window.location.pathname.match(/\/apps\/(.*?)\//)\<close>;
    \<open>None\<close> when the path does not match, where \<open>contextPathFromURL\<close> throws a TypeError.
  \<^item> \<open>manifests\<close>: the context paths whose \<open>importManifest.js\<close> the \<open>corsImport\<close> resolves.
  \<^item> \<open>bundles\<close>: the entry modules \<open>__webpack_require__.interleaved\<close> resolves, by context
    path (each a module namespace object); for any other path the import rejects.
  \<^item> \<open>state_emissions\<close>: the successive values of \<open>dynamicComponentService.state$\<close>, the
    current one first, each the definitions the host registry holds.
\<close>

record world =
  isLoaded :: bool
  widgetFactories :: "(string \<times> WidgetComponentFactoriesAndInjector) list"
  definitions :: "ref \<Rightarrow> DynamicComponentDefinition"
  host_registry :: "ref list"
  inventory :: "IAppRuntimeContext list"

text \<open>
  \<open>widgetFactories\<close> is the JavaScript \<open>Map\<close>: an association list in insertion order,
  written only by \<open>AList.update\<close> (a new key is appended, an old key keeps its place and
  gets the new value) and read by \<open>map_of\<close>. \<open>definitions\<close> is the store of the definition
  objects; \<open>host_registry\<close> is the state of the host's \<open>dynamicComponentService\<close>.
\<close>

definition initial_world :: "(ref \<Rightarrow> DynamicComponentDefinition) \<Rightarrow> IAppRuntimeContext list \<Rightarrow> world" where
  "initial_world defs rcs =
     \<lparr>isLoaded = False, widgetFactories = [], definitions = defs, host_registry = [],
      inventory = rcs\<rparr>"

subsection \<open>Events\<close>

datatype progress = Loading | LoadingWidgets nat nat | StillWorking | AlmostReady

text \<open>
  \<^item> \<open>AlertUpdate\<close>, \<open>AlertClose\<close>: \<open>loadingAlert.update\<close> and \<open>loadingAlert.close\<close>;
    \<open>LoadingWidgets k n\<close> is the message "Loading widgets k of n".
  \<^item> \<open>CorsImport cp\<close>: the request for \<open>/apps/cp/importManifest.js\<close>.
  \<^item> \<open>Interleaved cp\<close>: the import of the entry module \<open>cp/cp-CustomWidget\<close>.
  \<^item> \<open>ConsoleError\<close>: \<open>console.error\<close>; \<open>AlertDanger\<close>: \<open>alertService.danger\<close>.
  \<^item> \<open>CompileModule key\<close>: \<open>compiler.compileModuleAsync\<close> of the value exported as \<open>key\<close>.
  \<^item> \<open>StateReported n\<close>: \<open>state$\<close> passed the filter with a state of size \<open>n\<close>.
  \<^item> \<open>LoadWidget d\<close>: a call of \<open>loadWidget\<close>; \<open>DynamicAdd d\<close>: \<open>dynamicComponentService.add\<close>.
  \<^item> \<open>IsLoadedNext b\<close>: \<open>isLoaded$.next(b)\<close>.
  \<^item> \<open>InventoryUpdate i ps\<close>: \<open>invService.update({id: i, widgetContextPaths: ps})\<close>.
\<close>

datatype event =
    AlertUpdate progress
  | AlertClose
  | CorsImport string
  | Interleaved string
  | ConsoleError string
  | AlertDanger string
  | CompileModule string
  | StateReported nat
  | LoadWidget ref
  | DynamicAdd ref
  | IsLoadedNext bool
  | InventoryUpdate string "string list"

text \<open>
  The errors of the model: \<open>Error('Could not find current application.')\<close>, a TypeError
  of the JavaScript runtime, and the error of a \<open>resolveComponentFactory\<close> that finds no
  factory.
\<close>

datatype js_error = ApplicationNotFound | TypeError | NoComponentFactory

text \<open>
  The promise \<open>loadRuntimeWidgets\<close> returns: resolved, rejected with an error, or pending
  for ever at one of its \<open>first()\<close> waits.
\<close>

datatype outcome = Resolved | Rejected js_error | Pending

section \<open>loadRuntimeWidgets\<close>

subsection \<open>The current application and the identifier set\<close>

text \<open>
  \<open>appList.find(...)\<close> twice, then \<open>throw Error('Could not find current application.')\<close>.
  The callbacks call \<open>contextPathFromURL()\<close>, so a URL that does not match throws as
  soon as the list has an element.
\<close>

definition find_current_app :: "env \<Rightarrow> js_error + IApplication" where
  "find_current_app e =
     (case applications e of
        [] \<Rightarrow> Inl ApplicationNotFound
      | _ # _ \<Rightarrow>
          (case urlContextPath e of
             None \<Rightarrow> Inl TypeError
           | Some p \<Rightarrow>
               (case find (\<lambda>app. contextPath app = p \<and> availability app = ''PRIVATE'')
                       (applications e) of
                  Some app \<Rightarrow> Inr app
                | None \<Rightarrow>
                    (case find (\<lambda>app. contextPath app = p) (applications e) of
                       Some app \<Rightarrow> Inr app
                     | None \<Rightarrow> Inl ApplicationNotFound))))"

text \<open>\<open>AppRuntimePathList.find(path => path.appId === app.id)\<close>.\<close>

definition find_runtime_context :: "IAppRuntimeContext list \<Rightarrow> IApplication \<Rightarrow> IAppRuntimeContext option" where
  "find_runtime_context rcs app = find (\<lambda>path. appId path = app_id app) rcs"

text \<open>
  \<open>Array.from(new Set(xs))\<close>: a \<open>Set\<close> keeps the first occurrence of each element, in
  insertion order.
\<close>

definition set_add :: "'a list \<Rightarrow> 'a \<Rightarrow> 'a list" where
  "set_add acc x = (if x \<in> set acc then acc else acc @ [x])"

definition array_from_set :: "'a list \<Rightarrow> 'a list" where
  "array_from_set xs = foldl set_add [] xs"

text \<open>\<open>(x && x.widgetContextPaths) || []\<close>.\<close>

definition or_empty :: "'a list option \<Rightarrow> 'a list" where
  "or_empty xs = (case xs of None \<Rightarrow> [] | Some ys \<Rightarrow> ys)"

definition rc_paths :: "IAppRuntimeContext option \<Rightarrow> string list" where
  "rc_paths rc = (case rc of None \<Rightarrow> [] | Some r \<Rightarrow> or_empty (widgetContextPaths r))"

definition contextPaths_of :: "IApplication \<Rightarrow> IAppRuntimeContext option \<Rightarrow> string list" where
  "contextPaths_of app rc =
     array_from_set (or_empty (app_widgetContextPaths app) @ rc_paths rc)"

subsection \<open>First loop: manifest and entry module of every identifier\<close>

record import_state =
  jsModules :: "jsModule list"
  cleanupWidgetContextPath :: "string list"
  widgetCounter :: nat
  import_log :: "event list"

definition known_app :: "env \<Rightarrow> string \<Rightarrow> bool" where
  "known_app e cp = list_ex (\<lambda>app. contextPath app = cp) (applications e)"

definition manifest_error :: "string \<Rightarrow> string" where
  "manifest_error cp = ''Unable to find widget manifest: /apps/'' @ cp @ ''/importManifest.js''"

definition module_error :: "string \<Rightarrow> string" where
  "module_error cp = ''Module: '' @ cp @ '', did not contain a custom widget''"

definition import_danger :: string where
  "import_danger = ''Failed to load a runtime custom widget, it may have been compiled for a different Cumulocity version.''"

definition load_danger :: string where
  "load_danger = ''Failed to load runtime custom widget, it may have been compiled for a different Cumulocity version.''"

text \<open>
  One iteration of \<open>for (const contextPath of contextPaths)\<close>; \<open>len\<close> is
  \<open>contextPaths.length\<close>. A string is falsy exactly when it is empty.
\<close>

definition import_step :: "env \<Rightarrow> nat \<Rightarrow> import_state \<Rightarrow> string \<Rightarrow> import_state" where
  "import_step e len st cp =
     (if cp \<noteq> [] \<and> length cp > 0 then
        let n = widgetCounter st + 1;
            st1 = st\<lparr>widgetCounter := n,
                     import_log := import_log st @ [AlertUpdate (LoadingWidgets n len), CorsImport cp]\<rparr>
        in if cp \<notin> set (manifests e) then
             (if known_app e cp
              then st1\<lparr>import_log := import_log st1 @ [ConsoleError (manifest_error cp)]\<rparr>
              else st1\<lparr>cleanupWidgetContextPath := cleanupWidgetContextPath st1 @ [cp]\<rparr>)
           else
             (case map_of (bundles e) cp of
                Some jsModule \<Rightarrow>
                  st1\<lparr>jsModules := jsModules st1 @ [jsModule],
                      import_log := import_log st1 @ [Interleaved cp]\<rparr>
              | None \<Rightarrow>
                  st1\<lparr>import_log := import_log st1 @
                        [Interleaved cp, ConsoleError (module_error cp), AlertDanger import_danger]\<rparr>)
      else st)"

definition import_loop :: "env \<Rightarrow> string list \<Rightarrow> import_state" where
  "import_loop e contextPaths =
     foldl (import_step e (length contextPaths))
       \<lparr>jsModules = [], cleanupWidgetContextPath = [], widgetCounter = 0, import_log = []\<rparr>
       contextPaths"

subsection \<open>Second loop: module descriptors among the exports, compiled and instantiated\<close>

record compile_state =
  ngModules :: "NgModuleRef list"
  compile_log :: "event list"

text \<open>
  \<open>exportedObj.hasOwnProperty('__annotations__') &&
  exportedObj.__annotations__.some(annotation => annotation.__proto__.ngMetadataName === "NgModule")\<close>.
  The test stands outside the \<open>try\<close>: its result is a boolean or the TypeError it throws.
  \<open>some\<close> stops at the first annotation that satisfies the callback.
\<close>

fun some_ng_module :: "annotation list \<Rightarrow> js_error + bool" where
  "some_ng_module [] = Inr False"
| "some_ng_module (BadAnnotation # rest) = Inl TypeError"
| "some_ng_module (Metadata name # rest) =
     (if name = Some ''NgModule'' then Inr True else some_ng_module rest)"

fun descriptor_test :: "exportedObj \<Rightarrow> js_error + bool" where
  "descriptor_test Nullish = Inl TypeError"
| "descriptor_test NoHasOwnProperty = Inl TypeError"
| "descriptor_test (Exported NoAnnotations act) = Inr False"
| "descriptor_test (Exported NotAnArray act) = Inl TypeError"
| "descriptor_test (Exported (Annotations anns) act) = some_ng_module anns"

text \<open>
  \<open>compiler.compileModuleAsync(exportedObj)\<close> and \<open>ngModuleFactory.create(this.injector)\<close>:
  the module instance, or \<open>None\<close> when one of them throws.
\<close>

fun activation :: "exportedObj \<Rightarrow> NgModuleRef option" where
  "activation (Exported anns act) = act"
| "activation exportedObj = None"

definition compile_error :: string where
  "compile_error = ''Failed to compile widgets in module:''"

text \<open>
  \<open>for (const key of Object.keys(jsModule))\<close>. The first component of the result is the
  error that left the loop uncaught, if any.
\<close>

fun compile_exports :: "jsModule \<Rightarrow> compile_state \<Rightarrow> js_error option \<times> compile_state" where
  "compile_exports [] st = (None, st)"
| "compile_exports ((key, exportedObj) # rest) st =
     (case descriptor_test exportedObj of
        Inl err \<Rightarrow> (Some err, st)
      | Inr isModule \<Rightarrow>
          if isModule then
            (case activation exportedObj of
               Some ngModule \<Rightarrow>
                 compile_exports rest
                   (st\<lparr>ngModules := ngModules st @ [ngModule],
                       compile_log := compile_log st @ [CompileModule key]\<rparr>)
             | None \<Rightarrow>
                 compile_exports rest
                   (st\<lparr>compile_log := compile_log st @
                         [CompileModule key, ConsoleError compile_error, AlertDanger load_danger]\<rparr>))
          else compile_exports rest st)"

text \<open>\<open>for (const jsModule of jsModules)\<close>\<close>

fun compile_loop :: "jsModule list \<Rightarrow> compile_state \<Rightarrow> js_error option \<times> compile_state" where
  "compile_loop [] st = (None, st)"
| "compile_loop (jsModule # rest) st =
     (case compile_exports jsModule st of
        (None, st') \<Rightarrow> compile_loop rest st'
      | (Some err, st') \<Rightarrow> (Some err, st'))"

subsection \<open>The gate on the host registry\<close>

text \<open>\<open>state$.pipe(filter(state => state.size > 0), first()).toPromise()\<close>\<close>

definition first_nonempty_state :: "env \<Rightarrow> ref list option" where
  "first_nonempty_state e = find (\<lambda>state. length state > 0) (state_emissions e)"

subsection \<open>loadWidget\<close>

definition resolveComponentFactory :: "NgModuleRef \<Rightarrow> component \<Rightarrow> ComponentFactory option" where
  "resolveComponentFactory ngModule c =
     (if c \<in> set (entryComponents ngModule) then Some (Factory (module_injector ngModule) c)
      else None)"

text \<open>
  The object literal passed to \<open>widgetFactories.set\<close>, evaluated left to right: the
  component factory, the config component factory when the definition has a
  \<open>configComponent\<close>, the injector. \<open>None\<close>: a resolution threw.
\<close>

definition build_factories ::
  "NgModuleRef \<Rightarrow> DynamicComponentDefinition \<Rightarrow> WidgetComponentFactoriesAndInjector option" where
  "build_factories ngModule widget =
     (case resolveComponentFactory ngModule (component widget) of
        None \<Rightarrow> None
      | Some cf \<Rightarrow>
          (case configComponent widget of
             None \<Rightarrow>
               Some \<lparr>componentFactory = cf, configComponentFactory = None,
                     injector = module_injector ngModule\<rparr>
           | Some cc \<Rightarrow>
               (case resolveComponentFactory ngModule cc of
                  None \<Rightarrow> None
                | Some ccf \<Rightarrow>
                    Some \<lparr>componentFactory = cf, configComponentFactory = Some ccf,
                          injector = module_injector ngModule\<rparr>)))"

definition load_error :: string where
  "load_error = ''Failed to load runtime widget:''"

text \<open>
  \<open>(widget as any).isRuntimeLoaded = true\<close>, on the object itself and before the \<open>try\<close>.
\<close>

definition mark_runtime_loaded :: "ref \<Rightarrow> world \<Rightarrow> world" where
  "mark_runtime_loaded r w =
     w\<lparr>definitions := (definitions w)(r := (definitions w r)\<lparr>isRuntimeLoaded := True\<rparr>)\<rparr>"

text \<open>
  \<open>loadWidget(ngModule, dynamicComponentService, widget)\<close>; \<open>widget\<close> is the reference of
  the definition object, the host's \<open>dynamicComponentService\<close> is the field
  \<open>host_registry\<close> of the world, and its \<open>add\<close> appends the object.
\<close>

fun loadWidget :: "NgModuleRef \<Rightarrow> ref \<Rightarrow> world \<times> event list \<Rightarrow> world \<times> event list" where
  "loadWidget ngModule widget (w, log) =
     (let w1 = mark_runtime_loaded widget w in
      case build_factories ngModule (definitions w1 widget) of
        Some entry \<Rightarrow>
          (w1\<lparr>widgetFactories :=
                 AList.update (def_id (definitions w1 widget)) entry (widgetFactories w1),
              host_registry := host_registry w1 @ [widget]\<rparr>,
           log @ [LoadWidget widget, DynamicAdd widget])
      | None \<Rightarrow>
          (w1, log @ [LoadWidget widget, ConsoleError load_error, AlertDanger load_danger]))"

subsection \<open>Third loop: every definition of every module through loadWidget\<close>

text \<open>\<open>ngModule.injector.get(HOOK_COMPONENTS) || []\<close>, arrays flattened one level.\<close>

fun hook_item_definitions :: "hook_item \<Rightarrow> ref list" where
  "hook_item_definitions (One widget) = [widget]"
| "hook_item_definitions (Many widgets) = widgets"

definition hook_definitions :: "NgModuleRef \<Rightarrow> ref list" where
  "hook_definitions ngModule = concat (map hook_item_definitions (or_empty (hook_components ngModule)))"

definition register_module :: "NgModuleRef \<Rightarrow> world \<times> event list \<Rightarrow> world \<times> event list" where
  "register_module ngModule st =
     foldl (\<lambda>st' widget. loadWidget ngModule widget st') st (hook_definitions ngModule)"

definition register_loop :: "NgModuleRef list \<Rightarrow> world \<times> event list \<Rightarrow> world \<times> event list" where
  "register_loop ms st = foldl (\<lambda>st' ngModule. register_module ngModule st') st ms"

subsection \<open>Cleaning deleted widgets from the runtime context\<close>

text \<open>
  One call of the \<open>forEach\<close> callback on an existing list: \<open>indexOf\<close> and
  \<open>splice(contextPathIndex, 1)\<close> drop the first occurrence.
\<close>

fun cleanup_step :: "string list \<times> bool \<Rightarrow> string \<Rightarrow> string list \<times> bool" where
  "cleanup_step (paths, isContextPathChanged) cp =
     (if cp \<in> set paths then (remove1 cp paths, True) else (paths, isContextPathChanged))"

text \<open>\<open>invService.update({id, widgetContextPaths})\<close> replaces the list of that object.\<close>

definition invService_update :: "string \<Rightarrow> string list \<Rightarrow> IAppRuntimeContext list \<Rightarrow> IAppRuntimeContext list" where
  "invService_update i paths rcs =
     map (\<lambda>r. if rc_id r = i then r\<lparr>widgetContextPaths := Some paths\<rparr> else r) rcs"

definition auto_clean ::
  "IAppRuntimeContext option \<Rightarrow> string list \<Rightarrow> world \<Rightarrow> world \<times> event list" where
  "auto_clean rc cleanup w =
     (case rc of
        None \<Rightarrow> (w, [])
      | Some r \<Rightarrow>
          (case widgetContextPaths r of
             None \<Rightarrow> (w, [])
           | Some paths \<Rightarrow>
               (case foldl cleanup_step (paths, False) cleanup of
                  (paths', isContextPathChanged) \<Rightarrow>
                    if isContextPathChanged
                    then (w\<lparr>inventory := invService_update (rc_id r) paths' (inventory w)\<rparr>,
                          [InventoryUpdate (rc_id r) paths'])
                    else (w, []))))"

subsection \<open>The whole run\<close>

text \<open>
  The log of a run is the concatenation, in program order, of what each part of
  \<open>loadRuntimeWidgets\<close> emitted. A rejected or pending run returns the world it was
  given: nothing is written before the gate.

  The calls the source makes outside any \<open>try\<close> are taken to return: the fetch of the
  application list, \<open>invService.list\<close>, \<open>invService.update\<close>, \<open>injector.get\<close> and
  \<open>dynamicComponentService.add\<close>. The failures modelled are the ones the source handles
  or causes itself: the two imports, the compilation, the factory resolution, the missing
  application, a URL without context path, an exported null value, and the two waits
  that may never end.
\<close>

definition loadRuntimeWidgets :: "env \<Rightarrow> world \<Rightarrow> outcome \<times> world \<times> event list" where
  "loadRuntimeWidgets e w =
     (case currentUser e of
        None \<Rightarrow> (Pending, w, [])
      | Some user \<Rightarrow>
          (case find_current_app e of
             Inl err \<Rightarrow> (Rejected err, w, [AlertUpdate Loading])
           | Inr app \<Rightarrow>
               (let rc = find_runtime_context (inventory w) app;
                    contextPaths = contextPaths_of app rc;
                    st = import_loop e contextPaths;
                    log1 = [AlertUpdate Loading] @ import_log st @ [AlertUpdate StillWorking]
                in case compile_loop (jsModules st) \<lparr>ngModules = [], compile_log = []\<rparr> of
                     (Some err, cst) \<Rightarrow> (Rejected err, w, log1 @ compile_log cst)
                   | (None, cst) \<Rightarrow>
                       (case first_nonempty_state e of
                          None \<Rightarrow> (Pending, w, log1 @ compile_log cst)
                        | Some state \<Rightarrow>
                            (case register_loop (ngModules cst) (w\<lparr>host_registry := state\<rparr>, []) of
                               (w1, log2) \<Rightarrow>
                                 (case auto_clean rc (cleanupWidgetContextPath st)
                                         (w1\<lparr>isLoaded := True\<rparr>) of
                                    (w2, log3) \<Rightarrow>
                                      (Resolved, w2,
                                       log1 @ compile_log cst @
                                       [StateReported (length state), AlertUpdate AlmostReady] @
                                       log2 @ [AlertClose, IsLoadedNext True] @ log3)))))))"

subsection \<open>removeWidgetFromApp\<close>

text \<open>
  The inventory query selects the runtime contexts of the application; the first one
  loses the first occurrence of the context path.
\<close>

definition removeWidgetFromApp :: "string \<Rightarrow> string \<Rightarrow> world \<Rightarrow> world \<times> event list" where
  "removeWidgetFromApp a cp w =
     (case filter (\<lambda>r. appId r = a) (inventory w) of
        [] \<Rightarrow> (w, [])
      | appRuntimePath # _ \<Rightarrow>
          (case widgetContextPaths appRuntimePath of
             None \<Rightarrow> (w, [])
           | Some paths \<Rightarrow>
               if cp \<in> set paths
               then (w\<lparr>inventory :=
                          invService_update (rc_id appRuntimePath) (remove1 cp paths) (inventory w)\<rparr>,
                     [InventoryUpdate (rc_id appRuntimePath) (remove1 cp paths)])
               else (w, [])))"

section \<open>The patched DynamicComponentComponent\<close>

subsection \<open>Observables on a timeline\<close>

text \<open>
  Time is the count of turns of the event loop. An observable is what a subscriber at
  time \<open>t\<close> receives: the emissions with their times, in order. The operators are the ones
  the patch uses: \<open>of\<close>, \<open>filter\<close>, \<open>first\<close>, \<open>switchMap\<close>. \<open>switchMap\<close> subscribes to the inner
  observable of each outer emission at the time of that emission, and leaves it at the
  next outer emission.
\<close>

type_synonym 'a observable = "nat \<Rightarrow> (nat \<times> 'a) list"

definition rx_of :: "'a \<Rightarrow> 'a observable" where
  "rx_of v t = [(t, v)]"

definition rx_filter :: "('a \<Rightarrow> bool) \<Rightarrow> 'a observable \<Rightarrow> 'a observable" where
  "rx_filter P obs t = filter (\<lambda>(u, v). P v) (obs t)"

definition rx_first :: "'a observable \<Rightarrow> 'a observable" where
  "rx_first obs t = take 1 (obs t)"

fun switch :: "('a \<Rightarrow> 'b observable) \<Rightarrow> (nat \<times> 'a) list \<Rightarrow> (nat \<times> 'b) list" where
  "switch f [] = []"
| "switch f [(t, v)] = f v t"
| "switch f ((t, v) # (t', v') # rest) =
     takeWhile (\<lambda>(u, x). u < t') (f v t) @ switch f ((t', v') # rest)"

definition rx_switchMap :: "('a \<Rightarrow> 'b observable) \<Rightarrow> 'a observable \<Rightarrow> 'b observable" where
  "rx_switchMap f obs t = switch f (obs t)"

text \<open>
  \<open>isLoaded$ = new BehaviorSubject(false)\<close>, whose only \<open>next\<close> is the \<open>next(true)\<close> of
  \<open>loadRuntimeWidgets\<close>, at the time \<open>loaded\<close> (\<open>None\<close>: never). A subscriber gets the
  current value at once and every later \<open>next\<close>.
\<close>

definition isLoaded_subject :: "nat option \<Rightarrow> bool observable" where
  "isLoaded_subject loaded t =
     (case loaded of
        None \<Rightarrow> [(t, False)]
      | Some T \<Rightarrow> if T \<le> t then [(t, True)] else [(t, False), (T, True)])"

subsection \<open>ngOnChanges\<close>

text \<open>
  The pipe of the patched \<open>ngOnChanges\<close>; \<open>getById\<close> is the host's
  \<open>dynamicComponentService.getById$(this.componentId)\<close>, which emits the definition
  registered under the id, or \<open>undefined\<close> (\<open>None\<close>). The result is the sequence of calls
  of \<open>loadComponent\<close> the subscription makes.
\<close>

definition ngOnChanges ::
  "DynamicComponentDefinition option observable \<Rightarrow> bool observable \<Rightarrow>
   DynamicComponentDefinition option observable" where
  "ngOnChanges getById signal =
     rx_switchMap
       (\<lambda>cmp. if cmp = None \<or> isRuntimeLoaded (the cmp)
              then rx_switchMap (\<lambda>loaded. getById) (rx_first (rx_filter (\<lambda>loaded. loaded) signal))
              else rx_of cmp)
       getById"

subsection \<open>loadComponent\<close>

datatype view = NoView | Rendered ComponentFactory "string option" string

text \<open>
  One \<open>DynamicComponentComponent\<close>: \<open>view_container\<close> is \<open>this.host\<close>, shown as the factory,
  the injector and the config of the component it holds.
\<close>

record DynamicComponentComponent =
  componentId :: string
  mode :: string
  config :: string
  error :: "js_error option"
  view_container :: view

text \<open>
  The patched \<open>loadComponent\<close>, with the table \<open>widgetFactories\<close> it reads and the component
  classes the host's own \<open>componentFactoryResolver\<close> resolves. Reading \<open>isRuntimeLoaded\<close>
  of \<open>undefined\<close>, destructuring \<open>undefined\<close> and creating a component from an undefined
  factory throw a TypeError; every error is caught and stored in \<open>this.error\<close>.
\<close>

definition loadComponent ::
  "(string \<times> WidgetComponentFactoriesAndInjector) list \<Rightarrow> component list \<Rightarrow>
   DynamicComponentComponent \<Rightarrow> DynamicComponentDefinition option \<Rightarrow> DynamicComponentComponent" where
  "loadComponent table static this dynamicComponent =
     (let this1 = this\<lparr>error := None\<rparr> in
      case dynamicComponent of
        None \<Rightarrow> this1\<lparr>error := Some TypeError\<rparr>
      | Some d \<Rightarrow>
          if isRuntimeLoaded d then
            (case map_of table (componentId this1) of
               None \<Rightarrow> this1\<lparr>error := Some TypeError\<rparr>
             | Some entry \<Rightarrow>
                 (case (if mode this1 = ''component'' then Some (componentFactory entry)
                        else configComponentFactory entry) of
                    None \<Rightarrow> this1\<lparr>view_container := NoView, error := Some TypeError\<rparr>
                  | Some factory \<Rightarrow>
                      this1\<lparr>view_container := Rendered factory (Some (injector entry)) (config this1)\<rparr>))
          else
            (case (if mode this1 = ''component'' then Some (component d) else configComponent d) of
               None \<Rightarrow> this1\<lparr>error := Some NoComponentFactory\<rparr>
             | Some c \<Rightarrow>
                 if c \<in> set static
                 then this1\<lparr>view_container := Rendered (Factory ''host'' c) None (config this1)\<rparr>
                 else this1\<lparr>error := Some NoComponentFactory\<rparr>))"

text \<open>
  \<open>.subscribe(cmp => this.loadComponent(cmp))\<close>: the calls in order, each reading the table
  as it is at its time.
\<close>

definition render_request ::
  "(nat \<Rightarrow> (string \<times> WidgetComponentFactoriesAndInjector) list) \<Rightarrow> component list \<Rightarrow>
   DynamicComponentDefinition option observable \<Rightarrow> bool observable \<Rightarrow>
   DynamicComponentComponent \<Rightarrow> nat \<Rightarrow> DynamicComponentComponent" where
  "render_request tables static getById signal this t =
     foldl (\<lambda>this' (u, cmp). loadComponent (tables u) static this' cmp) this
       (ngOnChanges getById signal t)"

section \<open>Notions used to state the properties\<close>

subsection \<open>What the first loop computes, identifier by identifier\<close>

text \<open>
  \<open>failed_unknown\<close>: the manifest import of a non-empty identifier fails and no application
  of the fetched list has that context path. \<open>imported_module\<close>: the entry module a
  non-empty identifier yields when both of its imports succeed. \<open>requests_of\<close>: the
  imports requested for one identifier, in order.
\<close>

definition failed_unknown :: "env \<Rightarrow> string \<Rightarrow> bool" where
  "failed_unknown e cp = (cp \<noteq> [] \<and> cp \<notin> set (manifests e) \<and> \<not> known_app e cp)"

definition imported_module :: "env \<Rightarrow> string \<Rightarrow> jsModule option" where
  "imported_module e cp =
     (if cp \<noteq> [] \<and> cp \<in> set (manifests e) then map_of (bundles e) cp else None)"

fun is_request :: "event \<Rightarrow> bool" where
  "is_request (CorsImport cp) = True"
| "is_request (Interleaved cp) = True"
| "is_request _ = False"

definition requests_of :: "env \<Rightarrow> string \<Rightarrow> event list" where
  "requests_of e cp =
     (if cp = [] then []
      else if cp \<in> set (manifests e) then [CorsImport cp, Interleaved cp]
      else [CorsImport cp])"

subsection \<open>Kinds of events\<close>

fun is_compile :: "event \<Rightarrow> bool" where
  "is_compile (CompileModule key) = True"
| "is_compile _ = False"

fun is_load :: "event \<Rightarrow> bool" where
  "is_load (LoadWidget d) = True"
| "is_load _ = False"

fun is_signal :: "event \<Rightarrow> bool" where
  "is_signal (IsLoadedNext b) = True"
| "is_signal _ = False"

fun is_warning :: "event \<Rightarrow> bool" where
  "is_warning (AlertDanger text) = True"
| "is_warning _ = False"

fun is_console_error :: "event \<Rightarrow> bool" where
  "is_console_error (ConsoleError text) = True"
| "is_console_error _ = False"

fun is_update :: "event \<Rightarrow> bool" where
  "is_update (InventoryUpdate i ps) = True"
| "is_update _ = False"

fun import_kind :: "nat \<Rightarrow> event \<Rightarrow> bool" where
  "import_kind n (AlertUpdate (LoadingWidgets k m)) = (m = n)"
| "import_kind n (CorsImport cp) = True"
| "import_kind n (Interleaved cp) = True"
| "import_kind n (ConsoleError text) = (\<exists>cp. text = manifest_error cp \<or> text = module_error cp)"
| "import_kind n (AlertDanger text) = (text = import_danger)"
| "import_kind n _ = False"

fun compile_kind :: "event \<Rightarrow> bool" where
  "compile_kind (CompileModule key) = True"
| "compile_kind (ConsoleError text) = (text = compile_error)"
| "compile_kind (AlertDanger text) = (text = load_danger)"
| "compile_kind _ = False"

fun register_kind :: "event \<Rightarrow> bool" where
  "register_kind (LoadWidget d) = True"
| "register_kind (DynamicAdd d) = True"
| "register_kind (ConsoleError text) = (text = load_error)"
| "register_kind (AlertDanger text) = (text = load_danger)"
| "register_kind _ = False"

subsection \<open>The parts of one run\<close>

text \<open>
  The runtime context, the identifier set, the result of the first and of the second loop,
  the collected definitions and the log up to the gate, for a run that resolved the
  application \<open>app\<close> in the world \<open>w\<close>.
\<close>

definition run_context :: "world \<Rightarrow> IApplication \<Rightarrow> IAppRuntimeContext option" where
  "run_context w app = find_runtime_context (inventory w) app"

definition run_identifiers :: "world \<Rightarrow> IApplication \<Rightarrow> string list" where
  "run_identifiers w app = contextPaths_of app (run_context w app)"

definition run_imports :: "env \<Rightarrow> world \<Rightarrow> IApplication \<Rightarrow> import_state" where
  "run_imports e w app = import_loop e (run_identifiers w app)"

definition run_compiled :: "env \<Rightarrow> world \<Rightarrow> IApplication \<Rightarrow> js_error option \<times> compile_state" where
  "run_compiled e w app =
     compile_loop (jsModules (run_imports e w app)) \<lparr>ngModules = [], compile_log = []\<rparr>"

definition run_definitions :: "env \<Rightarrow> world \<Rightarrow> IApplication \<Rightarrow> ref list" where
  "run_definitions e w app = concat (map hook_definitions (ngModules (snd (run_compiled e w app))))"

definition run_log1 :: "env \<Rightarrow> world \<Rightarrow> IApplication \<Rightarrow> event list" where
  "run_log1 e w app =
     [AlertUpdate Loading] @ import_log (run_imports e w app) @ [AlertUpdate StillWorking] @
     compile_log (snd (run_compiled e w app))"

subsection \<open>A concrete installation\<close>

text \<open>
  The application \<open>cockpit\<close> exists as a subscribed and as an own (PRIVATE) application;
  bundle \<open>a\<close> is deployed and exports one module with the widget \<open>w1\<close>; bundle \<open>b\<close> is
  in the runtime context but was deleted from the tenant.
\<close>

definition demo_widget :: DynamicComponentDefinition where
  "demo_widget = \<lparr>def_id = ''w1'', component = ''W1Component'', configComponent = Some ''W1Config'',
     isRuntimeLoaded = False\<rparr>"

definition builtin_widget :: DynamicComponentDefinition where
  "builtin_widget = \<lparr>def_id = ''builtin'', component = ''Builtin'', configComponent = None,
     isRuntimeLoaded = False\<rparr>"

definition second_widget :: DynamicComponentDefinition where
  "second_widget = \<lparr>def_id = ''w2'', component = ''W2Component'', configComponent = None,
     isRuntimeLoaded = False\<rparr>"

definition rival_widget :: DynamicComponentDefinition where
  "rival_widget = \<lparr>def_id = ''w1'', component = ''W2Component'', configComponent = None,
     isRuntimeLoaded = False\<rparr>"

text \<open>
  The store: object 0 is the built-in definition of the host, object 1 the widget \<open>w1\<close>
  of bundle \<open>a\<close>, object 2 the widget \<open>w2\<close> of bundle \<open>b\<close>, object 3 a second definition
  under the id \<open>w1\<close>.
\<close>

definition demo_definitions :: "ref \<Rightarrow> DynamicComponentDefinition" where
  "demo_definitions r =
     (if r = 1 then demo_widget else if r = 2 then second_widget
      else if r = 3 then rival_widget else builtin_widget)"

definition demo_module :: NgModuleRef where
  "demo_module = \<lparr>module_injector = ''a-injector'', entryComponents = [''W1Component'', ''W1Config''],
     hook_components = Some [One 1]\<rparr>"

definition demo_shared_app :: IApplication where
  "demo_shared_app = \<lparr>app_id = ''1'', contextPath = ''cockpit'', availability = ''MARKET'',
     app_widgetContextPaths = None\<rparr>"

definition demo_app :: IApplication where
  "demo_app = \<lparr>app_id = ''2'', contextPath = ''cockpit'', availability = ''PRIVATE'',
     app_widgetContextPaths = Some [''a'']\<rparr>"

definition demo_bundle :: jsModule where
  "demo_bundle = [(''helper'', Exported NoAnnotations None),
                  (''AModule'', Exported (Annotations [Metadata (Some ''NgModule'')]) (Some demo_module))]"

definition demo_env :: env where
  "demo_env = \<lparr>currentUser = Some ''admin'', applications = [demo_shared_app, demo_app],
     urlContextPath = Some ''cockpit'', manifests = [''a''], bundles = [(''a'', demo_bundle)],
     state_emissions = [[], [0]]\<rparr>"

definition demo_inventory :: "IAppRuntimeContext list" where
  "demo_inventory = [\<lparr>rc_id = ''77'', appId = ''2'', widgetContextPaths = Some [''a'', ''b'']\<rparr>]"

definition blank_inventory :: "IAppRuntimeContext list" where
  "blank_inventory = [\<lparr>rc_id = ''77'', appId = ''2'', widgetContextPaths = Some [''a'', '''', ''b'']\<rparr>]"

subsection \<open>Module descriptors\<close>

text \<open>
  An exported value qualifies as a module descriptor when the test of the second loop
  accepts it, and the test throws on others. The second loop inspects the exports of the
  imported modules in order, up to the first one on which the test throws.
  \<open>descriptor_keys\<close> are the export names of the descriptors among some exports,
  \<open>activated\<close> the module instances of those descriptors that compile.
\<close>

definition qualifies :: "exportedObj \<Rightarrow> bool" where
  "qualifies obj = (descriptor_test obj = Inr True)"

definition test_throws :: "exportedObj \<Rightarrow> bool" where
  "test_throws obj = (descriptor_test obj = Inl TypeError)"

definition inspected_exports :: "jsModule list \<Rightarrow> (string \<times> exportedObj) list" where
  "inspected_exports ms = takeWhile (\<lambda>(key, obj). \<not> test_throws obj) (concat ms)"

definition descriptor_keys :: "(string \<times> exportedObj) list \<Rightarrow> string list" where
  "descriptor_keys exports = map fst (filter (\<lambda>(key, obj). qualifies obj) exports)"

definition activated :: "(string \<times> exportedObj) list \<Rightarrow> NgModuleRef list" where
  "activated exports =
     List.map_filter (\<lambda>(key, obj). if qualifies obj then activation obj else None) exports"

subsection \<open>Further concrete installations\<close>

text \<open>
  Two deployed bundles, each exporting one module.
\<close>

definition second_module :: NgModuleRef where
  "second_module = \<lparr>module_injector = ''b-injector'', entryComponents = [''W2Component''],
     hook_components = Some [Many [2]]\<rparr>"

definition pair_env :: env where
  "pair_env = demo_env\<lparr>manifests := [''a'', ''b''],
     bundles := [(''a'', demo_bundle),
                 (''b'', [(''BModule'', Exported (Annotations [Metadata (Some ''NgModule'')])
                                           (Some second_module))])]\<rparr>"

text \<open>
  Bundle \<open>a\<close> exports a module, then \<open>null\<close>, then another module.
\<close>

definition null_bundle :: jsModule where
  "null_bundle = [(''AModule'', Exported (Annotations [Metadata (Some ''NgModule'')]) (Some demo_module)),
                  (''nothing'', Nullish),
                  (''BModule'', Exported (Annotations [Metadata (Some ''NgModule'')]) (Some second_module))]"

definition null_env :: env where
  "null_env = demo_env\<lparr>bundles := [(''a'', null_bundle)]\<rparr>"

text \<open>
  Bundle \<open>a\<close> exports helpers only, and the runtime context lists bundle \<open>a\<close> alone.
\<close>

definition helper_bundle :: jsModule where
  "helper_bundle = [(''helper'', Exported NoAnnotations None),
                    (''VersionService'', Exported (Annotations [Metadata (Some ''Injectable'')]) None),
                    (''VERSION'', Exported (Annotations [Metadata None]) None)]"

definition helper_env :: env where
  "helper_env = demo_env\<lparr>bundles := [(''a'', helper_bundle)]\<rparr>"

definition single_inventory :: "IAppRuntimeContext list" where
  "single_inventory = [\<lparr>rc_id = ''77'', appId = ''2'', widgetContextPaths = Some [''a'']\<rparr>]"

subsection \<open>Consistency of the two registries\<close>

text \<open>
  Every runtime-sourced definition of the host registry has an entry under its id in
  \<open>widgetFactories\<close>.
\<close>

definition has_factories :: "world \<Rightarrow> ref \<Rightarrow> bool" where
  "has_factories w r = (map_of (widgetFactories w) (def_id (definitions w r)) \<noteq> None)"

definition registry_consistent :: "world \<Rightarrow> bool" where
  "registry_consistent w =
     list_all (\<lambda>r. isRuntimeLoaded (definitions w r) \<longrightarrow> has_factories w r) (host_registry w)"

text \<open>
  The definitions of a batch that the host registry holds have their entry in
  \<open>widgetFactories\<close>; this holds in particular when the host registry holds none of them.
\<close>

definition batch_registered :: "ref list \<Rightarrow> world \<Rightarrow> bool" where
  "batch_registered batch w =
     list_all (\<lambda>r. r \<in> set (host_registry w) \<longrightarrow> has_factories w r) batch"

text \<open>
  A module whose resolver knows no component, and a world whose host registry already
  holds the object 0, the built-in definition.
\<close>

definition broken_module :: NgModuleRef where
  "broken_module = demo_module\<lparr>entryComponents := [], hook_components := Some [One 0, One 1]\<rparr>"

definition host_world :: world where
  "host_world = (initial_world demo_definitions [])\<lparr>host_registry := [0]\<rparr>"

text \<open>
  \<open>entry_failed\<close>: the manifest of a non-empty identifier was imported and its entry
  module was not.
\<close>

definition entry_failed :: "env \<Rightarrow> string \<Rightarrow> bool" where
  "entry_failed e cp = (cp \<noteq> [] \<and> cp \<in> set (manifests e) \<and> map_of (bundles e) cp = None)"

text \<open>
  An application with the context path \<open>b\<close> exists, but its manifest cannot be imported.
\<close>

definition undeployed_app :: IApplication where
  "undeployed_app = \<lparr>app_id = ''3'', contextPath = ''b'', availability = ''PRIVATE'',
     app_widgetContextPaths = None\<rparr>"

definition known_env :: env where
  "known_env = demo_env\<lparr>applications := [demo_shared_app, demo_app, undeployed_app]\<rparr>"

text \<open>
  A timeline: the definition \<open>w1\<close> enters the host registry at time 3, as a runtime-sourced
  definition, and never leaves it; \<open>missing_getById\<close> is an id that never resolves.
\<close>

definition demo_getById :: "DynamicComponentDefinition option observable" where
  "demo_getById t =
     (if t < 3 then [(t, None), (3, Some (demo_widget\<lparr>isRuntimeLoaded := True\<rparr>))]
      else [(t, Some (demo_widget\<lparr>isRuntimeLoaded := True\<rparr>))])"

definition missing_getById :: "DynamicComponentDefinition option observable" where
  "missing_getById t = [(t, None)]"

definition demo_instance :: DynamicComponentComponent where
  "demo_instance = \<lparr>componentId = ''w1'', mode = ''component'', config = ''{}'', error = None,
     view_container = NoView\<rparr>"

text \<open>
  The table \<open>widgetFactories\<close> along the same timeline: the entry of \<open>w1\<close> is written at
  time 3. \<open>builtin_getById\<close> is the id of a definition the host application was built with.
\<close>

definition demo_tables :: "nat \<Rightarrow> (string \<times> WidgetComponentFactoriesAndInjector) list" where
  "demo_tables u =
     (if u < 3 then []
      else [(''w1'', \<lparr>componentFactory = Factory ''a-injector'' ''W1Component'',
                      configComponentFactory = Some (Factory ''a-injector'' ''W1Config''),
                      injector = ''a-injector''\<rparr>)])"

definition builtin_getById :: "DynamicComponentDefinition option observable" where
  "builtin_getById t = [(t, Some builtin_widget)]"

section \<open>Properties\<close>

subsection \<open>Auxiliary lemmas\<close>

lemma set_foldl_set_add: "set (foldl set_add acc xs) = set acc \<union> set xs"
  by (induction xs arbitrary: acc) (auto simp: set_add_def)

lemma distinct_foldl_set_add: "distinct acc \<Longrightarrow> distinct (foldl set_add acc xs)"
  by (induction xs arbitrary: acc) (auto simp: set_add_def)

lemma find_eq_filter: "find P xs = (case filter P xs of [] \<Rightarrow> None | x # _ \<Rightarrow> Some x)"
  by (induction xs) auto

lemma distinct_array_from_set: "distinct (array_from_set xs)"
  by (simp add: array_from_set_def distinct_foldl_set_add)

lemma set_array_from_set: "set (array_from_set xs) = set xs"
  by (simp add: array_from_set_def set_foldl_set_add)

lemma distinct_contextPaths_of: "distinct (contextPaths_of app rc)"
  by (simp add: contextPaths_of_def distinct_array_from_set)

lemma set_contextPaths_of:
  "set (contextPaths_of app rc) = set (or_empty (app_widgetContextPaths app)) \<union> set (rc_paths rc)"
  by (simp add: contextPaths_of_def set_array_from_set)

lemma cleanup_foldl_import_step:
  "cleanupWidgetContextPath (foldl (import_step e n) st cps) =
     cleanupWidgetContextPath st @ filter (failed_unknown e) cps"
  by (induction cps arbitrary: st)
     (auto simp: import_step_def failed_unknown_def Let_def split: option.splits)

lemma jsModules_foldl_import_step:
  "jsModules (foldl (import_step e n) st cps) =
     jsModules st @ List.map_filter (imported_module e) cps"
  by (induction cps arbitrary: st)
     (auto simp: import_step_def imported_module_def Let_def List.map_filter_simps split: option.splits)

lemma requests_foldl_import_step:
  "filter is_request (import_log (foldl (import_step e n) st cps)) =
     filter is_request (import_log st) @ concat (map (requests_of e) cps)"
  by (induction cps arbitrary: st)
     (auto simp: import_step_def requests_of_def Let_def split: option.splits)

lemma import_kind_import_step:
  "list_all (import_kind n) (import_log st) \<Longrightarrow>
   list_all (import_kind n) (import_log (import_step e n st cp))"
  unfolding import_step_def Let_def
  by (auto split: option.splits intro: exI[of _ cp])

lemma import_kind_foldl_import_step:
  "list_all (import_kind n) (import_log st) \<Longrightarrow>
   list_all (import_kind n) (import_log (foldl (import_step e n) st cps))"
  by (induction cps arbitrary: st) (simp_all add: import_kind_import_step)

lemma import_kind_import_loop:
  "list_all (import_kind (length cps)) (import_log (import_loop e cps))"
  by (simp add: import_loop_def import_kind_foldl_import_step)

lemma compile_kind_compile_exports:
  "list_all compile_kind (compile_log st) \<Longrightarrow>
   list_all compile_kind (compile_log (snd (compile_exports m st)))"
  by (induction m st rule: compile_exports.induct) (auto split: option.splits sum.splits)

lemma compile_kind_compile_loop:
  "list_all compile_kind (compile_log st) \<Longrightarrow>
   list_all compile_kind (compile_log (snd (compile_loop ms st)))"
proof (induction ms arbitrary: st)
  case Nil
  then show ?case by simp
next
  case (Cons m ms)
  obtain r st' where r: "compile_exports m st = (r, st')" by (cases "compile_exports m st")
  with compile_kind_compile_exports[OF Cons.prems, of m]
  have k: "list_all compile_kind (compile_log st')" by simp
  show ?case
  proof (cases r)
    case None
    with r Cons.IH[OF k] show ?thesis by simp
  next
    case (Some err)
    with r k show ?thesis by simp
  qed
qed

lemma register_kind_loadWidget:
  "list_all register_kind (snd st) \<Longrightarrow> list_all register_kind (snd (loadWidget m d st))"
  by (cases st) (auto simp: Let_def split: option.splits)

lemma registry_loadWidget:
  "\<exists>added. host_registry (fst (loadWidget m d st)) = host_registry (fst st) @ added"
  by (cases st) (simp add: Let_def mark_runtime_loaded_def split: option.splits)

lemma registry_foldl_loadWidget:
  "\<exists>added. host_registry (fst (foldl (\<lambda>st' widget. loadWidget m widget st') st ds)) =
     host_registry (fst st) @ added"
proof (induction ds arbitrary: st)
  case Nil
  then show ?case by simp
next
  case (Cons d ds)
  from registry_loadWidget[of m d st] obtain a1 where
    a1: "host_registry (fst (loadWidget m d st)) = host_registry (fst st) @ a1" by blast
  from Cons[of "loadWidget m d st"] obtain a2 where
    "host_registry (fst (foldl (\<lambda>st' widget. loadWidget m widget st') (loadWidget m d st) ds)) =
       host_registry (fst (loadWidget m d st)) @ a2" by blast
  with a1 show ?case by simp
qed

lemma registry_register_loop:
  "\<exists>added. host_registry (fst (register_loop ms st)) = host_registry (fst st) @ added"
  unfolding register_loop_def
proof (induction ms arbitrary: st)
  case Nil
  then show ?case by simp
next
  case (Cons m ms)
  from registry_foldl_loadWidget[of m st "hook_definitions m"] obtain a1 where
    a1: "host_registry (fst (register_module m st)) = host_registry (fst st) @ a1"
    unfolding register_module_def by blast
  from Cons[of "register_module m st"] obtain a2 where
    "host_registry (fst (foldl (\<lambda>st' ngModule. register_module ngModule st') (register_module m st) ms)) =
       host_registry (fst (register_module m st)) @ a2" by blast
  with a1 show ?case by simp
qed

lemma registry_auto_clean: "host_registry (fst (auto_clean rc cl w)) = host_registry w"
  by (simp add: auto_clean_def split: option.splits prod.splits)

lemma find_split:
  "find P xs = Some x \<Longrightarrow> \<exists>ys zs. xs = ys @ x # zs \<and> P x \<and> list_all (\<lambda>y. \<not> P y) ys"
proof (induction xs)
  case Nil
  then show ?case by simp
next
  case (Cons a xs)
  show ?case
  proof (cases "P a")
    case True
    with Cons.prems have "a = x" by simp
    with True have "a # xs = [] @ x # xs \<and> P x \<and> list_all (\<lambda>y. \<not> P y) []" by simp
    then show ?thesis by blast
  next
    case False
    with Cons.prems have "find P xs = Some x" by simp
    from Cons.IH[OF this] obtain ys zs where
      "xs = ys @ x # zs" "P x" "list_all (\<lambda>y. \<not> P y) ys" by blast
    with False have "a # xs = (a # ys) @ x # zs \<and> P x \<and> list_all (\<lambda>y. \<not> P y) (a # ys)"
      by simp
    then show ?thesis by blast
  qed
qed

lemma first_nonempty_state_split:
  "first_nonempty_state e = Some state \<Longrightarrow>
   \<exists>earlier later. state_emissions e = earlier @ state # later \<and>
      list_all (\<lambda>s. s = []) earlier \<and> state \<noteq> []"
  unfolding first_nonempty_state_def by (drule find_split) auto

lemma first_nonempty_state_none:
  "list_all (\<lambda>s. s = []) (state_emissions e) \<Longrightarrow> first_nonempty_state e = None"
  by (auto simp: first_nonempty_state_def find_None_iff list_all_iff)

lemma register_kind_foldl_loadWidget:
  "list_all register_kind (snd st) \<Longrightarrow>
   list_all register_kind (snd (foldl (\<lambda>st' widget. loadWidget m widget st') st ds))"
  by (induction ds arbitrary: st) (simp_all add: register_kind_loadWidget)

lemma register_kind_register_loop:
  "list_all register_kind (snd st) \<Longrightarrow> list_all register_kind (snd (register_loop ms st))"
  unfolding register_loop_def
  by (induction ms arbitrary: st) (simp_all add: register_module_def register_kind_foldl_loadWidget)

lemma run_cases:
  obtains
    (NoUser) "currentUser e = None" "loadRuntimeWidgets e w = (Pending, w, [])"
  | (NoApp) user err where "currentUser e = Some user" "find_current_app e = Inl err"
      "loadRuntimeWidgets e w = (Rejected err, w, [AlertUpdate Loading])"
  | (CompileError) user app err where "currentUser e = Some user" "find_current_app e = Inr app"
      "fst (run_compiled e w app) = Some err"
      "loadRuntimeWidgets e w = (Rejected err, w, run_log1 e w app)"
  | (GateClosed) user app where "currentUser e = Some user" "find_current_app e = Inr app"
      "fst (run_compiled e w app) = None" "first_nonempty_state e = None"
      "loadRuntimeWidgets e w = (Pending, w, run_log1 e w app)"
  | (Done) user app state w1 log2 w2 log3 where
      "currentUser e = Some user" "find_current_app e = Inr app"
      "fst (run_compiled e w app) = None" "first_nonempty_state e = Some state"
      "register_loop (ngModules (snd (run_compiled e w app))) (w\<lparr>host_registry := state\<rparr>, []) = (w1, log2)"
      "auto_clean (run_context w app) (cleanupWidgetContextPath (run_imports e w app))
         (w1\<lparr>isLoaded := True\<rparr>) = (w2, log3)"
      "loadRuntimeWidgets e w =
         (Resolved, w2,
          run_log1 e w app @ [StateReported (length state), AlertUpdate AlmostReady] @ log2 @
          [AlertClose, IsLoadedNext True] @ log3)"
proof (cases "currentUser e")
  case None
  then show ?thesis using NoUser by (simp add: loadRuntimeWidgets_def)
next
  case (Some user)
  note u = this
  show ?thesis
  proof (cases "find_current_app e")
    case (Inl err)
    with u show ?thesis using NoApp by (simp add: loadRuntimeWidgets_def)
  next
    case (Inr app)
    note a = this
    obtain r cst where c: "run_compiled e w app = (r, cst)" by (cases "run_compiled e w app")
    show ?thesis
    proof (cases r)
      case (Some err)
      with u a c show ?thesis using CompileError[of user app err]
        by (simp add: loadRuntimeWidgets_def run_compiled_def run_imports_def run_identifiers_def
              run_context_def run_log1_def Let_def)
    next
      case None
      note n = this
      show ?thesis
      proof (cases "first_nonempty_state e")
        case None
        with u a c n show ?thesis using GateClosed[of user app]
          by (simp add: loadRuntimeWidgets_def run_compiled_def run_imports_def run_identifiers_def
                run_context_def run_log1_def Let_def)
      next
        case (Some state)
        obtain w1 log2 where r: "register_loop (ngModules cst) (w\<lparr>host_registry := state\<rparr>, []) = (w1, log2)"
          by (cases "register_loop (ngModules cst) (w\<lparr>host_registry := state\<rparr>, [])")
        obtain w2 log3 where k: "auto_clean (run_context w app) (cleanupWidgetContextPath (run_imports e w app))
             (w1\<lparr>isLoaded := True\<rparr>) = (w2, log3)"
          by (cases "auto_clean (run_context w app) (cleanupWidgetContextPath (run_imports e w app))
             (w1\<lparr>isLoaded := True\<rparr>)")
        from u a c n Some r k show ?thesis using Done[of user app state w1 log2 w2 log3]
          by (simp add: loadRuntimeWidgets_def run_compiled_def run_imports_def run_identifiers_def
                run_context_def run_log1_def Let_def)
      qed
    qed
  qed
qed

lemma filter_none: "list_all P xs \<Longrightarrow> (\<And>x. P x \<Longrightarrow> \<not> Q x) \<Longrightarrow> filter Q xs = []"
  by (induction xs) auto

lemma compile_kind_not_request: "compile_kind ev \<Longrightarrow> \<not> is_request ev"
  by (cases ev) auto

lemma register_kind_not_request: "register_kind ev \<Longrightarrow> \<not> is_request ev"
  by (cases ev) auto

lemma auto_clean_log: "list_all is_update (snd (auto_clean rc cleanup w))"
  by (auto simp: auto_clean_def split: option.splits prod.splits)

lemma is_update_not_request: "is_update ev \<Longrightarrow> \<not> is_request ev"
  by (cases ev) auto

lemma run_compiled_kind: "list_all compile_kind (compile_log (snd (run_compiled e w app)))"
  unfolding run_compiled_def by (rule compile_kind_compile_loop) simp

lemma register_loop_kind:
  "register_loop ms (w, []) = (w1, log2) \<Longrightarrow> list_all register_kind log2"
  using register_kind_register_loop[of "(w, [])" ms] by simp

lemma run_log1_requests:
  "filter is_request (run_log1 e w app) = concat (map (requests_of e) (run_identifiers w app))"
  using requests_foldl_import_step[of e "length (run_identifiers w app)" _ "run_identifiers w app"]
    filter_none[OF run_compiled_kind compile_kind_not_request]
  by (simp add: run_log1_def run_imports_def import_loop_def)

lemma run_requests:
  assumes "find_current_app e = Inr app"
  shows "filter is_request (snd (snd (loadRuntimeWidgets e w))) =
           (if currentUser e = None then [] else concat (map (requests_of e) (run_identifiers w app)))"
proof (cases rule: run_cases[of e w])
  case NoUser
  then show ?thesis by simp
next
  case (NoApp user err)
  with assms show ?thesis by simp
next
  case (CompileError user app' err)
  with assms show ?thesis by (simp add: run_log1_requests)
next
  case (GateClosed user app')
  with assms show ?thesis by (simp add: run_log1_requests)
next
  case (Done user app' state w1 log2 w2 log3)
  have "filter is_request log2 = []"
    using filter_none[OF register_loop_kind[OF Done(5)] register_kind_not_request] by simp
  moreover have "filter is_request log3 = []"
    proof -
    have "filter is_request (snd (auto_clean (run_context w app') (cleanupWidgetContextPath (run_imports e w app')) (w1\<lparr>isLoaded := True\<rparr>))) = []"
      by (rule filter_none[OF auto_clean_log is_update_not_request])
    with Done(6) show ?thesis by simp
  qed
  ultimately show ?thesis using Done assms by (simp add: run_log1_requests)
qed

subsection \<open>C8: the current application and the identifier set\<close>

text \<open>
  Claim C8. With a logged-in user and a URL of context path \<open>p\<close>, \<open>loadRuntimeWidgets\<close>
  resolves the current application as the first application of the fetched list whose
  context path is \<open>p\<close> and whose availability is PRIVATE; if there is none, as the first
  application whose context path is \<open>p\<close>; if there is none either, the run is rejected
  with the application-not-found error, having changed nothing and requested nothing.
  On success the matching runtime context is the first one of the inventory whose
  \<open>appId\<close> is the application's id, the identifier set has no duplicates, its elements are
  those of the application's \<open>widgetContextPaths\<close> and of the runtime context's
  \<open>widgetContextPaths\<close> (an absent list counting as empty), and the imports the run
  requests are those of exactly these identifiers, in their order.
\<close>

theorem current_application_and_identifier_set:
  assumes "currentUser e = Some user" and "urlContextPath e = Some p"
  shows
    "(case filter (\<lambda>app. contextPath app = p \<and> availability app = ''PRIVATE'') (applications e) of
        app # _ \<Rightarrow> find_current_app e = Inr app
      | [] \<Rightarrow>
          (case filter (\<lambda>app. contextPath app = p) (applications e) of
             app # _ \<Rightarrow> find_current_app e = Inr app
           | [] \<Rightarrow>
               find_current_app e = Inl ApplicationNotFound \<and>
               loadRuntimeWidgets e w = (Rejected ApplicationNotFound, w, [AlertUpdate Loading])))
     \<and> (\<forall>app. find_current_app e = Inr app \<longrightarrow>
          run_context w app =
            (case filter (\<lambda>rc. appId rc = app_id app) (inventory w) of
               [] \<Rightarrow> None | rc # _ \<Rightarrow> Some rc) \<and>
          distinct (run_identifiers w app) \<and>
          set (run_identifiers w app) =
            set (or_empty (app_widgetContextPaths app)) \<union> set (rc_paths (run_context w app)) \<and>
          filter is_request (snd (snd (loadRuntimeWidgets e w))) =
            concat (map (requests_of e) (run_identifiers w app)))"
proof (intro conjI allI impI)
  show "case filter (\<lambda>app. contextPath app = p \<and> availability app = ''PRIVATE'') (applications e) of
        app # _ \<Rightarrow> find_current_app e = Inr app
      | [] \<Rightarrow>
          (case filter (\<lambda>app. contextPath app = p) (applications e) of
             app # _ \<Rightarrow> find_current_app e = Inr app
           | [] \<Rightarrow>
               find_current_app e = Inl ApplicationNotFound \<and>
               loadRuntimeWidgets e w = (Rejected ApplicationNotFound, w, [AlertUpdate Loading]))"
  proof -
    have f: "find_current_app e =
       (case filter (\<lambda>app. contextPath app = p \<and> availability app = ''PRIVATE'') (applications e) of
          app # _ \<Rightarrow> Inr app
        | [] \<Rightarrow> (case filter (\<lambda>app. contextPath app = p) (applications e) of
                   app # _ \<Rightarrow> Inr app | [] \<Rightarrow> Inl ApplicationNotFound))"
      using assms(2) by (cases "applications e") (simp_all add: find_current_app_def find_eq_filter split: list.splits)
    have r: "find_current_app e = Inl ApplicationNotFound \<Longrightarrow>
       loadRuntimeWidgets e w = (Rejected ApplicationNotFound, w, [AlertUpdate Loading])"
      using assms(1) by (simp add: loadRuntimeWidgets_def)
    show ?thesis using r unfolding f by (simp split: list.splits)
  qed
next
  fix app assume a: "find_current_app e = Inr app"
  show "run_context w app =
          (case filter (\<lambda>rc. appId rc = app_id app) (inventory w) of [] \<Rightarrow> None | rc # _ \<Rightarrow> Some rc)"
    by (simp add: run_context_def find_runtime_context_def find_eq_filter)
  show "distinct (run_identifiers w app)"
    by (simp add: run_identifiers_def distinct_contextPaths_of)
  show "set (run_identifiers w app) =
          set (or_empty (app_widgetContextPaths app)) \<union> set (rc_paths (run_context w app))"
    by (simp add: run_identifiers_def set_contextPaths_of)
  show "filter is_request (snd (snd (loadRuntimeWidgets e w))) =
          concat (map (requests_of e) (run_identifiers w app))"
    using run_requests[OF a, of w] assms by simp
qed

lemmas demo_defs = demo_widget_def demo_module_def builtin_widget_def second_widget_def
  rival_widget_def demo_definitions_def demo_shared_app_def demo_app_def
  demo_bundle_def demo_env_def demo_inventory_def initial_world_def

lemmas run_defs = loadRuntimeWidgets_def find_current_app_def find_runtime_context_def
  contextPaths_of_def array_from_set_def set_add_def or_empty_def rc_paths_def import_loop_def
  import_step_def known_app_def first_nonempty_state_def register_loop_def register_module_def
  hook_definitions_def build_factories_def resolveComponentFactory_def mark_runtime_loaded_def
  auto_clean_def invService_update_def Let_def
  run_context_def run_identifiers_def run_imports_def run_compiled_def run_definitions_def run_log1_def

theorem current_application_and_identifier_set_witness:
  "find_current_app demo_env = Inr demo_app \<and>
   run_identifiers (initial_world demo_definitions demo_inventory) demo_app = [''a'', ''b''] \<and>
   distinct (run_identifiers (initial_world demo_definitions demo_inventory) demo_app) \<and>
   filter is_request (snd (snd (loadRuntimeWidgets demo_env (initial_world demo_definitions demo_inventory)))) =
     [CorsImport ''a'', Interleaved ''a'', CorsImport ''b'']"
  using current_application_and_identifier_set
    [where e = demo_env and user = "''admin''" and p = "''cockpit''"
       and w = "initial_world demo_definitions demo_inventory"]
  by (simp add: demo_defs run_defs requests_of_def)

lemma import_step_empty: "import_step e n st [] = st"
  by (simp add: import_step_def)

lemma foldl_import_step_skip_empty:
  "foldl (import_step e n) st cps = foldl (import_step e n) st (removeAll [] cps)"
  by (induction cps arbitrary: st) (simp_all add: import_step_empty)

lemma import_kind_total: "import_kind n (AlertUpdate (LoadingWidgets k m)) \<Longrightarrow> m = n"
  by simp

lemma list_all_member: "list_all P xs \<Longrightarrow> x \<in> set xs \<Longrightarrow> P x"
  by (simp add: list_all_iff)

lemma cleanup_step_keeps:
  "x \<notin> set cl \<Longrightarrow> x \<in> set ps \<Longrightarrow> x \<in> set (fst (foldl cleanup_step (ps, b) cl))"
proof (induction cl arbitrary: ps b)
  case Nil
  then show ?case by simp
next
  case (Cons c cl)
  then have "x \<noteq> c" and "x \<notin> set cl" by auto
  then show ?case using Cons.IH[of "remove1 c ps" True] Cons.IH[of ps b] Cons.prems(2)
    by (cases "c \<in> set ps") simp_all
qed

lemma auto_clean_update:
  assumes "InventoryUpdate i ps \<in> set (snd (auto_clean rc cl w))"
  shows "\<exists>r paths. rc = Some r \<and> widgetContextPaths r = Some paths \<and> i = rc_id r \<and>
           ps = fst (foldl cleanup_step (paths, False) cl)"
  using assms by (auto simp: auto_clean_def split: option.splits prod.splits if_splits)

lemma run_cleanup:
  "cleanupWidgetContextPath (run_imports e w app) = filter (failed_unknown e) (run_identifiers w app)"
  by (simp add: run_imports_def import_loop_def cleanup_foldl_import_step)

lemma t1: "ConsoleError (manifest_error []) = ConsoleError t \<Longrightarrow> t = compile_error \<Longrightarrow> False"
  by (simp add: manifest_error_def compile_error_def)

lemma manifest_error_inj: "manifest_error a = manifest_error b \<Longrightarrow> a = b"
  by (simp add: manifest_error_def)

lemma module_error_inj: "module_error a = module_error b \<Longrightarrow> a = b"
  by (simp add: module_error_def)

lemma manifest_module: "manifest_error a \<noteq> module_error b"
  by (simp add: manifest_error_def module_error_def)

lemma error_texts:
  "manifest_error a \<noteq> compile_error" "manifest_error a \<noteq> load_error"
  "module_error a \<noteq> compile_error" "module_error a \<noteq> load_error"
  "compile_error \<noteq> load_error"
  by (simp_all add: manifest_error_def module_error_def compile_error_def load_error_def)

lemma console_import_step:
  "ConsoleError t \<in> set (import_log (import_step e n st cp)) \<Longrightarrow>
     ConsoleError t \<in> set (import_log st) \<or>
     (cp \<noteq> [] \<and> cp \<notin> set (manifests e) \<and> known_app e cp \<and> t = manifest_error cp) \<or>
     (cp \<noteq> [] \<and> cp \<in> set (manifests e) \<and> map_of (bundles e) cp = None \<and> t = module_error cp)"
  by (auto simp: import_step_def Let_def split: if_splits option.splits)

lemma console_foldl_import_step:
  "ConsoleError t \<in> set (import_log (foldl (import_step e n) st cps)) \<Longrightarrow>
     ConsoleError t \<in> set (import_log st) \<or>
     (\<exists>cp \<in> set cps. cp \<noteq> [] \<and> cp \<notin> set (manifests e) \<and> known_app e cp \<and> t = manifest_error cp) \<or>
     (\<exists>cp \<in> set cps. cp \<noteq> [] \<and> cp \<in> set (manifests e) \<and> map_of (bundles e) cp = None \<and> t = module_error cp)"
proof (induction cps arbitrary: st)
  case Nil
  then show ?case by simp
next
  case (Cons cp cps)
  from Cons.IH[of "import_step e n st cp"] Cons.prems
  consider "ConsoleError t \<in> set (import_log (import_step e n st cp))"
    | "\<exists>cp \<in> set cps. cp \<noteq> [] \<and> cp \<notin> set (manifests e) \<and> known_app e cp \<and> t = manifest_error cp"
    | "\<exists>cp \<in> set cps. cp \<noteq> [] \<and> cp \<in> set (manifests e) \<and> map_of (bundles e) cp = None \<and> t = module_error cp"
    by auto
  then show ?case
  proof cases
    case 1
    from console_import_step[OF this] show ?thesis by auto
  next
    case 2
    then show ?thesis by auto
  next
    case 3
    then show ?thesis by auto
  qed
qed

lemma run_log_member:
  assumes "find_current_app e = Inr app"
    and "ev \<in> set (snd (snd (loadRuntimeWidgets e w)))"
  shows "ev = AlertUpdate Loading \<or> ev = AlertUpdate StillWorking \<or>
         (import_kind (length (run_identifiers w app)) ev \<and> ev \<in> set (import_log (run_imports e w app))) \<or>
         compile_kind ev \<or> (\<exists>n. ev = StateReported n) \<or> ev = AlertUpdate AlmostReady \<or>
         register_kind ev \<or> ev = AlertClose \<or> ev = IsLoadedNext True \<or>
         (\<exists>w1. ev \<in> set (snd (auto_clean (run_context w app)
                    (cleanupWidgetContextPath (run_imports e w app)) w1)))"
proof -
  have i: "list_all (import_kind (length (run_identifiers w app))) (import_log (run_imports e w app))"
    by (simp add: run_imports_def import_kind_import_loop)
  have c: "list_all compile_kind (compile_log (snd (run_compiled e w app)))"
    by (rule run_compiled_kind)
  have l1: "ev \<in> set (run_log1 e w app) \<Longrightarrow> ?thesis"
    using i c by (auto simp: run_log1_def list_all_iff)
  show ?thesis
  proof (cases rule: run_cases[of e w])
    case NoUser
    with assms show ?thesis by simp
  next
    case (NoApp user err)
    with assms show ?thesis by simp
  next
    case (CompileError user app' err)
    with assms l1 show ?thesis by simp
  next
    case (GateClosed user app')
    with assms l1 show ?thesis by simp
  next
    case (Done user app' state w1 log2 w2 log3)
    have a: "app' = app" using Done(2) assms(1) by simp
    have r: "list_all register_kind log2" by (rule register_loop_kind[OF Done(5)])
    from assms(2) Done(7) have "ev \<in> set (run_log1 e w app) \<or> ev = StateReported (length state) \<or>
        ev = AlertUpdate AlmostReady \<or> ev \<in> set log2 \<or> ev = AlertClose \<or> ev = IsLoadedNext True \<or>
        ev \<in> set log3"
      unfolding a by auto
    moreover have "ev \<in> set log2 \<Longrightarrow> register_kind ev" using r by (simp add: list_all_iff)
    moreover have "ev \<in> set log3 \<Longrightarrow> ?thesis" using Done(6) unfolding a by (metis snd_conv)
    ultimately show ?thesis using l1 by blast
  qed
qed

lemma run_console_error:
  assumes "find_current_app e = Inr app"
    and "ConsoleError t \<in> set (snd (snd (loadRuntimeWidgets e w)))"
  shows "(\<exists>cp \<in> set (run_identifiers w app).
            cp \<noteq> [] \<and> cp \<notin> set (manifests e) \<and> known_app e cp \<and> t = manifest_error cp) \<or>
         (\<exists>cp \<in> set (run_identifiers w app).
            cp \<noteq> [] \<and> cp \<in> set (manifests e) \<and> map_of (bundles e) cp = None \<and> t = module_error cp) \<or>
         t = compile_error \<or> t = load_error"
proof -
  from run_log_member[OF assms]
  consider "ConsoleError t \<in> set (import_log (run_imports e w app))"
    | "compile_kind (ConsoleError t)" | "register_kind (ConsoleError t)"
    | w1 where "ConsoleError t \<in> set (snd (auto_clean (run_context w app)
                    (cleanupWidgetContextPath (run_imports e w app)) w1))"
    by auto
  then show ?thesis
  proof cases
    case 1
    from console_foldl_import_step[OF this[unfolded run_imports_def import_loop_def]]
    show ?thesis by auto
  next
    case 2
    then show ?thesis by simp
  next
    case 3
    then show ?thesis by simp
  next
    case 4
    from list_all_member[OF auto_clean_log this] show ?thesis by simp
  qed
qed

lemma run_requests_member:
  assumes "find_current_app e = Inr app"
    and "ev \<in> set (snd (snd (loadRuntimeWidgets e w)))" and "is_request ev"
  shows "\<exists>cp \<in> set (run_identifiers w app). cp \<noteq> [] \<and> ev \<in> set (requests_of e cp)"
proof -
  from assms(2,3) have "ev \<in> set (filter is_request (snd (snd (loadRuntimeWidgets e w))))" by simp
  then have "ev \<in> set (concat (map (requests_of e) (run_identifiers w app)))"
    unfolding run_requests[OF assms(1)] by (simp split: if_splits)
  then obtain cp where cp: "cp \<in> set (run_identifiers w app)" "ev \<in> set (requests_of e cp)" by auto
  then have "cp \<noteq> []" by (auto simp: requests_of_def)
  with cp show ?thesis by blast
qed

lemma requests_of_cases:
  "ev \<in> set (requests_of e cp) \<Longrightarrow> ev = CorsImport cp \<or> ev = Interleaved cp"
  by (auto simp: requests_of_def split: if_splits)

subsection \<open>C10: empty identifiers\<close>

text \<open>
  Claim C10. An empty identifier of the resolved set is skipped entirely: the first loop
  computes what it computes on the set without its empty identifiers (same modules, same
  removal list, same counter, same log), except that the total of the progress messages
  stays the length of the whole set, which counts the empty identifier. So the run
  requests no manifest and no entry module for it, logs no error about it, never marks it
  for removal, and an inventory update of the run keeps it in the list of the runtime
  context.
\<close>

theorem empty_identifier_skipped:
  assumes "currentUser e = Some user" and "find_current_app e = Inr app"
    and "[] \<in> set (run_identifiers w app)"
  shows
    "run_imports e w app =
       foldl (import_step e (length (run_identifiers w app)))
         \<lparr>jsModules = [], cleanupWidgetContextPath = [], widgetCounter = 0, import_log = []\<rparr>
         (removeAll [] (run_identifiers w app))
     \<and> length (removeAll [] (run_identifiers w app)) < length (run_identifiers w app)
     \<and> (\<forall>k m. AlertUpdate (LoadingWidgets k m) \<in> set (snd (snd (loadRuntimeWidgets e w))) \<longrightarrow>
            m = length (run_identifiers w app))
     \<and> CorsImport [] \<notin> set (snd (snd (loadRuntimeWidgets e w)))
     \<and> Interleaved [] \<notin> set (snd (snd (loadRuntimeWidgets e w)))
     \<and> ConsoleError (manifest_error []) \<notin> set (snd (snd (loadRuntimeWidgets e w)))
     \<and> ConsoleError (module_error []) \<notin> set (snd (snd (loadRuntimeWidgets e w)))
     \<and> [] \<notin> set (cleanupWidgetContextPath (run_imports e w app))
     \<and> (\<forall>i ps. InventoryUpdate i ps \<in> set (snd (snd (loadRuntimeWidgets e w))) \<longrightarrow>
            [] \<in> set (rc_paths (run_context w app)) \<longrightarrow> [] \<in> set ps)"
proof -
  let ?log = "snd (snd (loadRuntimeWidgets e w))"
  let ?ids = "run_identifiers w app"
  have skip: "run_imports e w app =
       foldl (import_step e (length ?ids))
         \<lparr>jsModules = [], cleanupWidgetContextPath = [], widgetCounter = 0, import_log = []\<rparr>
         (removeAll [] ?ids)"
    unfolding run_imports_def import_loop_def by (rule foldl_import_step_skip_empty)
  have shorter: "length (removeAll [] ?ids) < length ?ids"
    using assms(3) by (rule length_removeAll_less)
  have totals: "m = length ?ids" if "AlertUpdate (LoadingWidgets k m) \<in> set ?log" for k m
    using run_log_member[OF assms(2) that] list_all_member[OF auto_clean_log] by fastforce
  have cors: "CorsImport [] \<notin> set ?log"
  proof
    assume "CorsImport [] \<in> set ?log"
    from run_requests_member[OF assms(2) this] obtain cp where
      "cp \<noteq> []" "CorsImport [] \<in> set (requests_of e cp)" by auto
    then show False using requests_of_cases[of "CorsImport []" e cp] by simp
  qed
  have inter: "Interleaved [] \<notin> set ?log"
  proof
    assume "Interleaved [] \<in> set ?log"
    from run_requests_member[OF assms(2) this] obtain cp where
      "cp \<noteq> []" "Interleaved [] \<in> set (requests_of e cp)" by auto
    then show False using requests_of_cases[of "Interleaved []" e cp] by simp
  qed
  have man: "ConsoleError (manifest_error []) \<notin> set ?log"
  proof
    assume "ConsoleError (manifest_error []) \<in> set ?log"
    from run_console_error[OF assms(2) this] show False
      using manifest_error_inj[of "[]"] manifest_module[of "[]"] error_texts(1,2)[of "[]"] by blast
  qed
  have modu: "ConsoleError (module_error []) \<notin> set ?log"
  proof
    assume "ConsoleError (module_error []) \<in> set ?log"
    from run_console_error[OF assms(2) this] show False
      using module_error_inj[of "[]"] manifest_module[of _ "[]"] error_texts(3,4)[of "[]"] by metis
  qed
  have unmarked: "[] \<notin> set (cleanupWidgetContextPath (run_imports e w app))"
    by (simp add: run_cleanup failed_unknown_def)
  have kept: "[] \<in> set ps"
    if u: "InventoryUpdate i ps \<in> set ?log" and m: "[] \<in> set (rc_paths (run_context w app))" for i ps
  proof -
    from run_log_member[OF assms(2) u] obtain w1 where
      "InventoryUpdate i ps \<in> set (snd (auto_clean (run_context w app)
          (cleanupWidgetContextPath (run_imports e w app)) w1))"
      by auto
    from auto_clean_update[OF this] obtain r paths where
      r: "run_context w app = Some r" "widgetContextPaths r = Some paths"
         "ps = fst (foldl cleanup_step (paths, False) (cleanupWidgetContextPath (run_imports e w app)))"
      by auto
    have "[] \<in> set paths" using m r by (simp add: rc_paths_def or_empty_def)
    with unmarked show "[] \<in> set ps" unfolding r(3) by (rule cleanup_step_keeps)
  qed
  from skip shorter totals cors inter man modu unmarked kept show ?thesis by blast
qed

theorem empty_identifier_skipped_witness:
  "run_identifiers (initial_world demo_definitions blank_inventory) demo_app = [''a'', [], ''b''] \<and>
   snd (snd (loadRuntimeWidgets demo_env (initial_world demo_definitions blank_inventory))) ! 4 =
     AlertUpdate (LoadingWidgets 2 3) \<and>
   CorsImport [] \<notin> set (snd (snd (loadRuntimeWidgets demo_env (initial_world demo_definitions blank_inventory)))) \<and>
   Interleaved [] \<notin> set (snd (snd (loadRuntimeWidgets demo_env (initial_world demo_definitions blank_inventory)))) \<and>
   [] \<notin> set (cleanupWidgetContextPath (run_imports demo_env (initial_world demo_definitions blank_inventory) demo_app)) \<and>
   inventory (fst (snd (loadRuntimeWidgets demo_env (initial_world demo_definitions blank_inventory)))) =
     [\<lparr>rc_id = ''77'', appId = ''2'', widgetContextPaths = Some [''a'', []]\<rparr>]"
  using empty_identifier_skipped
    [where e = demo_env and user = "''admin''" and app = demo_app
       and w = "initial_world demo_definitions blank_inventory"]
  by (simp add: demo_defs blank_inventory_def run_defs)

lemma import_kind_not_load: "import_kind n ev \<Longrightarrow> \<not> is_load ev"
  by (cases ev) auto

lemma import_kind_not_signal: "import_kind n ev \<Longrightarrow> \<not> is_signal ev"
  by (cases ev) auto

lemma import_kind_not_compile: "import_kind n ev \<Longrightarrow> \<not> is_compile ev"
  by (cases ev) auto

lemma compile_kind_not_load: "compile_kind ev \<Longrightarrow> \<not> is_load ev"
  by (cases ev) auto

lemma compile_kind_not_signal: "compile_kind ev \<Longrightarrow> \<not> is_signal ev"
  by (cases ev) auto

lemma register_kind_not_signal: "register_kind ev \<Longrightarrow> \<not> is_signal ev"
  by (cases ev) auto

lemma register_kind_not_compile: "register_kind ev \<Longrightarrow> \<not> is_compile ev"
  by (cases ev) auto

lemma is_update_not_load: "is_update ev \<Longrightarrow> \<not> is_load ev"
  by (cases ev) auto

lemma is_update_not_signal: "is_update ev \<Longrightarrow> \<not> is_signal ev"
  by (cases ev) auto

lemma is_update_not_compile: "is_update ev \<Longrightarrow> \<not> is_compile ev"
  by (cases ev) auto

lemma run_imports_kind:
  "list_all (import_kind (length (run_identifiers w app))) (import_log (run_imports e w app))"
  by (simp add: run_imports_def import_kind_import_loop)

lemma run_log1_no_load: "filter is_load (run_log1 e w app) = []"
  using filter_none[OF run_imports_kind import_kind_not_load]
    filter_none[OF run_compiled_kind compile_kind_not_load]
  by (simp add: run_log1_def)

lemma run_log1_no_signal: "filter is_signal (run_log1 e w app) = []"
  using filter_none[OF run_imports_kind import_kind_not_signal]
    filter_none[OF run_compiled_kind compile_kind_not_signal]
  by (simp add: run_log1_def)

lemma auto_clean_no_load: "filter is_load (snd (auto_clean rc cl w)) = []"
  by (rule filter_none[OF auto_clean_log is_update_not_load])

lemma auto_clean_no_signal: "filter is_signal (snd (auto_clean rc cl w)) = []"
  by (rule filter_none[OF auto_clean_log is_update_not_signal])

lemma loads_loadWidget:
  "filter is_load (snd (loadWidget m d st)) = filter is_load (snd st) @ [LoadWidget d]"
  by (cases st) (simp add: Let_def split: option.splits)

lemma loads_foldl_loadWidget:
  "filter is_load (snd (foldl (\<lambda>st' widget. loadWidget m widget st') st ds)) =
     filter is_load (snd st) @ map LoadWidget ds"
  by (induction ds arbitrary: st) (simp_all add: loads_loadWidget)

lemma loads_register_loop:
  "filter is_load (snd (register_loop ms st)) =
     filter is_load (snd st) @ map LoadWidget (concat (map hook_definitions ms))"
  unfolding register_loop_def
  by (induction ms arbitrary: st) (simp_all add: register_module_def loads_foldl_loadWidget)

lemma first_nonempty_state_size: "first_nonempty_state e = Some state \<Longrightarrow> 0 < length state"
  by (auto simp: first_nonempty_state_def find_Some_iff)

subsection \<open>C5: registration happens between the gate and the load signal\<close>

text \<open>
  Claim C5. In a run that does not resolve (no user, no application, an uncaught error,
  a host registry that never reports an entry) no definition is passed to \<open>loadWidget\<close>
  and the load signal is not touched; and a run does not resolve when every state that
  \<open>state$\<close> emits is empty. In a run that resolves, \<open>state$\<close> has emitted
  \<open>earlier @ state # later\<close> where the states of \<open>earlier\<close> are empty and \<open>state\<close> is not,
  and the log is \<open>pre @ [StateReported n] @ reg @ [IsLoadedNext True] @ post\<close> where
  \<open>n > 0\<close> is the size of \<open>state\<close>, no call of \<open>loadWidget\<close> and no \<open>next\<close> of the signal
  stands in \<open>pre\<close> or in \<open>post\<close>, and the calls of \<open>loadWidget\<close> in \<open>reg\<close> are those of all
  collected definitions, in order, with no \<open>next\<close> of the signal among them. The host
  registry ends as \<open>state\<close> followed by what the registration added.
\<close>

theorem registration_between_gate_and_signal:
  "(fst (loadRuntimeWidgets e w) \<noteq> Resolved \<longrightarrow>
      filter is_load (snd (snd (loadRuntimeWidgets e w))) = [] \<and>
      filter is_signal (snd (snd (loadRuntimeWidgets e w))) = [])
   \<and> (list_all (\<lambda>s. s = []) (state_emissions e) \<longrightarrow> fst (loadRuntimeWidgets e w) \<noteq> Resolved)
   \<and> (fst (loadRuntimeWidgets e w) = Resolved \<longrightarrow>
      (\<exists>app earlier state later pre reg post added.
         find_current_app e = Inr app \<and>
         state_emissions e = earlier @ state # later \<and>
         list_all (\<lambda>s. s = []) earlier \<and> state \<noteq> [] \<and> 0 < length state \<and>
         snd (snd (loadRuntimeWidgets e w)) =
           pre @ [StateReported (length state)] @ reg @ [IsLoadedNext True] @ post \<and>
         filter is_load pre = [] \<and> filter is_signal pre = [] \<and>
         filter is_load reg = map LoadWidget (run_definitions e w app) \<and>
         filter is_signal reg = [] \<and>
         filter is_load post = [] \<and> filter is_signal post = [] \<and>
         host_registry (fst (snd (loadRuntimeWidgets e w))) = state @ added))"
proof (cases rule: run_cases[of e w])
  case NoUser
  then show ?thesis by simp
next
  case (NoApp user err)
  then show ?thesis by simp
next
  case (CompileError user app err)
  then show ?thesis by (simp add: run_log1_no_load run_log1_no_signal)
next
  case (GateClosed user app)
  then show ?thesis by (simp add: run_log1_no_load run_log1_no_signal)
next
  case (Done user app state w1 log2 w2 log3)
  let ?reg = "[AlertUpdate AlmostReady] @ log2 @ [AlertClose]"
  have open_gate: "\<not> list_all (\<lambda>s. s = []) (state_emissions e)"
    using first_nonempty_state_none[of e] Done(4) by auto
  from first_nonempty_state_split[OF Done(4)] obtain earlier later where
    em: "state_emissions e = earlier @ state # later" "list_all (\<lambda>s. s = []) earlier" "state \<noteq> []"
    by blast
  have loads: "filter is_load log2 = map LoadWidget (run_definitions e w app)"
    using loads_register_loop[of "ngModules (snd (run_compiled e w app))" "(w\<lparr>host_registry := state\<rparr>, [])"]
      Done(5) by (simp add: run_definitions_def)
  have sig2: "filter is_signal log2 = []"
    by (rule filter_none[OF register_loop_kind[OF Done(5)] register_kind_not_signal])
  have l3: "filter is_load log3 = []" using auto_clean_no_load[of "run_context w app"
      "cleanupWidgetContextPath (run_imports e w app)" "w1\<lparr>isLoaded := True\<rparr>"] Done(6) by simp
  have s3: "filter is_signal log3 = []" using auto_clean_no_signal[of "run_context w app"
      "cleanupWidgetContextPath (run_imports e w app)" "w1\<lparr>isLoaded := True\<rparr>"] Done(6) by simp
  from registry_register_loop[of "ngModules (snd (run_compiled e w app))" "(w\<lparr>host_registry := state\<rparr>, [])"]
    Done(5) obtain added where "host_registry w1 = state @ added" by auto
  with registry_auto_clean[of "run_context w app" "cleanupWidgetContextPath (run_imports e w app)"
      "w1\<lparr>isLoaded := True\<rparr>"] Done(6)
  have reg: "host_registry w2 = state @ added" by simp
  have "find_current_app e = Inr app \<and>
         state_emissions e = earlier @ state # later \<and>
         list_all (\<lambda>s. s = []) earlier \<and> state \<noteq> [] \<and> 0 < length state \<and>
         snd (snd (loadRuntimeWidgets e w)) =
           run_log1 e w app @ [StateReported (length state)] @ ?reg @ [IsLoadedNext True] @ log3 \<and>
         filter is_load (run_log1 e w app) = [] \<and> filter is_signal (run_log1 e w app) = [] \<and>
         filter is_load ?reg = map LoadWidget (run_definitions e w app) \<and>
         filter is_signal ?reg = [] \<and>
         filter is_load log3 = [] \<and> filter is_signal log3 = [] \<and>
         host_registry (fst (snd (loadRuntimeWidgets e w))) = state @ added"
    using Done(2,7) em loads sig2 l3 s3 reg
    by (simp add: run_log1_no_load run_log1_no_signal)
  then have "\<exists>app earlier state later pre reg post added.
         find_current_app e = Inr app \<and>
         state_emissions e = earlier @ state # later \<and>
         list_all (\<lambda>s. s = []) earlier \<and> state \<noteq> [] \<and> 0 < length state \<and>
         snd (snd (loadRuntimeWidgets e w)) =
           pre @ [StateReported (length state)] @ reg @ [IsLoadedNext True] @ post \<and>
         filter is_load pre = [] \<and> filter is_signal pre = [] \<and>
         filter is_load reg = map LoadWidget (run_definitions e w app) \<and>
         filter is_signal reg = [] \<and>
         filter is_load post = [] \<and> filter is_signal post = [] \<and>
         host_registry (fst (snd (loadRuntimeWidgets e w))) = state @ added"
    by blast
  with Done(7) open_gate show ?thesis by simp
qed

theorem registration_between_gate_and_signal_witness:
  "state_emissions demo_env = [[], [0]]
   \<and> fst (loadRuntimeWidgets demo_env (initial_world demo_definitions demo_inventory)) = Resolved
   \<and> snd (snd (loadRuntimeWidgets demo_env (initial_world demo_definitions demo_inventory))) =
      [AlertUpdate Loading,
       AlertUpdate (LoadingWidgets 1 2), CorsImport ''a'', Interleaved ''a'',
       AlertUpdate (LoadingWidgets 2 2), CorsImport ''b'',
       AlertUpdate StillWorking, CompileModule ''AModule'',
       StateReported 1, AlertUpdate AlmostReady,
       LoadWidget 1, DynamicAdd 1,
       AlertClose, IsLoadedNext True,
       InventoryUpdate ''77'' [''a'']]
   \<and> host_registry (fst (snd (loadRuntimeWidgets demo_env
         (initial_world demo_definitions demo_inventory)))) = [0, 1]
   \<and> widgetFactories (fst (snd (loadRuntimeWidgets demo_env
         (initial_world demo_definitions demo_inventory)))) =
         [(''w1'', \<lparr>componentFactory = Factory ''a-injector'' ''W1Component'',
                    configComponentFactory = Some (Factory ''a-injector'' ''W1Config''),
                    injector = ''a-injector''\<rparr>)]
   \<and> fst (loadRuntimeWidgets (demo_env\<lparr>state_emissions := [[], []]\<rparr>)
         (initial_world demo_definitions demo_inventory)) = Pending
   \<and> filter is_load (snd (snd (loadRuntimeWidgets (demo_env\<lparr>state_emissions := [[], []]\<rparr>)
         (initial_world demo_definitions demo_inventory)))) = []"
  using registration_between_gate_and_signal
    [where e = demo_env and w = "initial_world demo_definitions demo_inventory"]
    registration_between_gate_and_signal
    [where e = "demo_env\<lparr>state_emissions := [[], []]\<rparr>"
       and w = "initial_world demo_definitions demo_inventory"]
  by (simp add: demo_defs run_defs)

lemma isLoaded_loadWidget: "isLoaded (fst (loadWidget m d st)) = isLoaded (fst st)"
  by (cases st) (simp add: Let_def mark_runtime_loaded_def split: option.splits)

lemma isLoaded_foldl_loadWidget:
  "isLoaded (fst (foldl (\<lambda>st' widget. loadWidget m widget st') st ds)) = isLoaded (fst st)"
  by (induction ds arbitrary: st) (simp_all add: isLoaded_loadWidget)

lemma isLoaded_register_loop: "isLoaded (fst (register_loop ms st)) = isLoaded (fst st)"
  unfolding register_loop_def
  by (induction ms arbitrary: st) (simp_all add: register_module_def isLoaded_foldl_loadWidget)

lemma isLoaded_auto_clean: "isLoaded (fst (auto_clean rc cl w)) = isLoaded w"
  by (simp add: auto_clean_def split: option.splits prod.splits)

lemma isLoaded_removeWidgetFromApp: "isLoaded (fst (removeWidgetFromApp a cp w)) = isLoaded w"
  by (simp add: removeWidgetFromApp_def split: list.splits option.splits)

lemma signal_member_filter: "IsLoadedNext b \<in> set xs \<Longrightarrow> filter is_signal xs \<noteq> []"
  by (induction xs) auto

subsection \<open>C3: the load signal\<close>

text \<open>
  Claim C3. \<open>isLoaded$\<close> starts as false. A run of \<open>loadRuntimeWidgets\<close> never calls
  \<open>next(false)\<close> and calls \<open>next\<close> at most once. A run that resolves calls \<open>next(true)\<close>
  exactly once and ends with the signal true, so from false the signal goes to true
  exactly once; a run that does not resolve does not call \<open>next\<close> and leaves the signal
  as it was. No operation of the service sets a true signal back to false:
  \<open>loadRuntimeWidgets\<close> keeps it true, and \<open>loadWidget\<close> and \<open>removeWidgetFromApp\<close> do not
  change it.
\<close>

theorem load_signal_once_and_monotone:
  "isLoaded (initial_world defs rcs) = False
   \<and> IsLoadedNext False \<notin> set (snd (snd (loadRuntimeWidgets e w)))
   \<and> length (filter is_signal (snd (snd (loadRuntimeWidgets e w)))) \<le> 1
   \<and> (fst (loadRuntimeWidgets e w) = Resolved \<longrightarrow>
        filter is_signal (snd (snd (loadRuntimeWidgets e w))) = [IsLoadedNext True] \<and>
        isLoaded (fst (snd (loadRuntimeWidgets e w))))
   \<and> (fst (loadRuntimeWidgets e w) \<noteq> Resolved \<longrightarrow>
        filter is_signal (snd (snd (loadRuntimeWidgets e w))) = [] \<and>
        fst (snd (loadRuntimeWidgets e w)) = w)
   \<and> (isLoaded w \<longrightarrow> isLoaded (fst (snd (loadRuntimeWidgets e w))))
   \<and> isLoaded (fst (loadWidget m d (w, l))) = isLoaded w
   \<and> isLoaded (fst (removeWidgetFromApp a cp w)) = isLoaded w"
proof -
  let ?run = "loadRuntimeWidgets e w"
  have init: "isLoaded (initial_world defs rcs) = False" by (simp add: initial_world_def)
  have lw: "isLoaded (fst (loadWidget m d (w, l))) = isLoaded w"
    using isLoaded_loadWidget[of m d "(w, l)"] by simp
  have rm: "isLoaded (fst (removeWidgetFromApp a cp w)) = isLoaded w"
    by (rule isLoaded_removeWidgetFromApp)
  have main: "(fst ?run = Resolved \<longrightarrow>
        filter is_signal (snd (snd ?run)) = [IsLoadedNext True] \<and> isLoaded (fst (snd ?run)))
     \<and> (fst ?run \<noteq> Resolved \<longrightarrow> filter is_signal (snd (snd ?run)) = [] \<and> fst (snd ?run) = w)"
  proof (cases rule: run_cases[of e w])
    case NoUser
    then show ?thesis by simp
  next
    case (NoApp user err)
    then show ?thesis by simp
  next
    case (CompileError user app err)
    then show ?thesis by (simp add: run_log1_no_signal)
  next
    case (GateClosed user app)
    then show ?thesis by (simp add: run_log1_no_signal)
  next
    case (Done user app state w1 log2 w2 log3)
    have s2: "filter is_signal log2 = []"
      by (rule filter_none[OF register_loop_kind[OF Done(5)] register_kind_not_signal])
    have s3: "filter is_signal log3 = []" using auto_clean_no_signal[of "run_context w app"
        "cleanupWidgetContextPath (run_imports e w app)" "w1\<lparr>isLoaded := True\<rparr>"] Done(6) by simp
    have "isLoaded w2" using isLoaded_auto_clean[of "run_context w app"
        "cleanupWidgetContextPath (run_imports e w app)" "w1\<lparr>isLoaded := True\<rparr>"] Done(6) by simp
    with Done(7) s2 s3 show ?thesis by (simp add: run_log1_no_signal)
  qed
  have never_false: "IsLoadedNext False \<notin> set (snd (snd ?run))"
  proof
    assume m: "IsLoadedNext False \<in> set (snd (snd ?run))"
    then have "IsLoadedNext False \<in> set (filter is_signal (snd (snd ?run)))" by simp
    with main show False by (cases "fst ?run = Resolved") simp_all
  qed
  have at_most: "length (filter is_signal (snd (snd ?run))) \<le> 1"
    using main by (cases "fst ?run = Resolved") simp_all
  have mono: "isLoaded w \<longrightarrow> isLoaded (fst (snd ?run))"
    using main by (cases "fst ?run = Resolved") simp_all
  from init never_false at_most main mono lw rm show ?thesis by blast
qed

theorem load_signal_once_and_monotone_witness:
  "isLoaded (initial_world demo_definitions demo_inventory) = False \<and>
   fst (loadRuntimeWidgets demo_env (initial_world demo_definitions demo_inventory)) = Resolved \<and>
   filter is_signal (snd (snd (loadRuntimeWidgets demo_env (initial_world demo_definitions demo_inventory)))) =
     [IsLoadedNext True] \<and>
   isLoaded (fst (snd (loadRuntimeWidgets demo_env (initial_world demo_definitions demo_inventory)))) \<and>
   fst (loadRuntimeWidgets (demo_env\<lparr>state_emissions := [[]]\<rparr>) (initial_world demo_definitions demo_inventory)) = Pending \<and>
   \<not> isLoaded (fst (snd (loadRuntimeWidgets (demo_env\<lparr>state_emissions := [[]]\<rparr>)
                   (initial_world demo_definitions demo_inventory))))"
  using load_signal_once_and_monotone
    [where e = demo_env and w = "initial_world demo_definitions demo_inventory" and rcs = demo_inventory]
    load_signal_once_and_monotone
    [where e = "demo_env\<lparr>state_emissions := [[]]\<rparr>" and w = "initial_world demo_definitions demo_inventory"]
  by (simp add: demo_defs run_defs)

lemma some_ng_module_error: "some_ng_module anns = Inl err \<Longrightarrow> err = TypeError"
  by (induction anns rule: some_ng_module.induct) (auto split: if_splits)

lemma descriptor_test_error: "descriptor_test obj = Inl err \<Longrightarrow> err = TypeError"
  by (induction obj rule: descriptor_test.induct) (auto dest: some_ng_module_error)

lemma compile_exports_append:
  "compile_exports (xs @ ys) st =
     (case compile_exports xs st of
        (None, st') \<Rightarrow> compile_exports ys st'
      | (Some err, st') \<Rightarrow> (Some err, st'))"
  by (induction xs st rule: compile_exports.induct) (auto split: sum.splits option.splits)

lemma compile_loop_concat: "compile_loop ms st = compile_exports (concat ms) st"
  by (induction ms arbitrary: st)
     (simp_all add: compile_exports_append split: prod.splits option.splits)

lemma compile_exports_result:
  "fst (compile_exports xs st) =
     (if list_all (\<lambda>(key, obj). \<not> test_throws obj) xs then None else Some TypeError)"
  by (induction xs st rule: compile_exports.induct)
     (auto simp: test_throws_def split: sum.splits option.splits dest: descriptor_test_error)

lemma compile_exports_log:
  "filter is_compile (compile_log (snd (compile_exports xs st))) =
     filter is_compile (compile_log st) @
     map CompileModule (descriptor_keys (takeWhile (\<lambda>(key, obj). \<not> test_throws obj) xs))"
  by (induction xs st rule: compile_exports.induct)
     (auto simp: test_throws_def qualifies_def descriptor_keys_def
           split: sum.splits option.splits dest: descriptor_test_error)

lemma compile_exports_modules:
  "ngModules (snd (compile_exports xs st)) =
     ngModules st @ activated (takeWhile (\<lambda>(key, obj). \<not> test_throws obj) xs)"
  by (induction xs st rule: compile_exports.induct)
     (auto simp: test_throws_def qualifies_def activated_def List.map_filter_simps
           split: sum.splits option.splits dest: descriptor_test_error)

lemma run_jsModules:
  "jsModules (run_imports e w app) = List.map_filter (imported_module e) (run_identifiers w app)"
  by (simp add: run_imports_def import_loop_def jsModules_foldl_import_step)

lemma run_imports_requests:
  "filter is_request (import_log (run_imports e w app)) =
     concat (map (requests_of e) (run_identifiers w app))"
  by (simp add: run_imports_def import_loop_def requests_foldl_import_step)

lemma run_imports_no_compile: "filter is_compile (import_log (run_imports e w app)) = []"
  by (rule filter_none[OF run_imports_kind import_kind_not_compile])

lemma auto_clean_no_compile: "filter is_compile (snd (auto_clean rc cl w)) = []"
  by (rule filter_none[OF auto_clean_log is_update_not_compile])

lemma auto_clean_no_request: "filter is_request (snd (auto_clean rc cl w)) = []"
  by (rule filter_none[OF auto_clean_log is_update_not_request])

lemma run_compiled_no_request: "filter is_request (compile_log (snd (run_compiled e w app))) = []"
  by (rule filter_none[OF run_compiled_kind compile_kind_not_request])

subsection \<open>C6: two passes over the batch\<close>

text \<open>
  Claim C6, as the code has it. With a logged-in user and a resolved application the log
  of a run is \<open>[AlertUpdate Loading] @ imp @ [AlertUpdate StillWorking] @ rest\<close>. The
  imports requested in \<open>imp\<close> are, identifier by identifier in the order of the
  identifier set, the manifest and then (when the manifest was imported) the entry
  module of each non-empty identifier; nothing is compiled in \<open>imp\<close>. No import is
  requested in \<open>rest\<close>. The second loop inspects the exports of the imported modules in
  import order, up to the first export on which the descriptor test throws: the
  compilations in \<open>rest\<close> are those of the module descriptors among the inspected exports,
  in that order, the collected module instances are those of the descriptors that
  compile, and the loop ends with a TypeError, which rejects the run, exactly when the test
  throws on some export. So extraction and activation of one identifier's module happen
  after the imports of all identifiers, not before the next identifier is begun.
\<close>

theorem imports_then_compilations:
  assumes "currentUser e = Some user" and "find_current_app e = Inr app"
  shows
    "\<exists>imp rest.
       snd (snd (loadRuntimeWidgets e w)) =
         [AlertUpdate Loading] @ imp @ [AlertUpdate StillWorking] @ rest \<and>
       filter is_request imp = concat (map (requests_of e) (run_identifiers w app)) \<and>
       filter is_compile imp = [] \<and>
       filter is_request rest = [] \<and>
       filter is_compile rest =
         map CompileModule
           (descriptor_keys (inspected_exports
              (List.map_filter (imported_module e) (run_identifiers w app)))) \<and>
       ngModules (snd (run_compiled e w app)) =
         activated (inspected_exports
            (List.map_filter (imported_module e) (run_identifiers w app))) \<and>
       fst (run_compiled e w app) =
         (if list_all (\<lambda>(key, obj). \<not> test_throws obj)
               (concat (List.map_filter (imported_module e) (run_identifiers w app)))
          then None else Some TypeError) \<and>
       (fst (run_compiled e w app) = Some TypeError \<longrightarrow>
          fst (loadRuntimeWidgets e w) = Rejected TypeError)"
proof -
  let ?imp = "import_log (run_imports e w app)"
  let ?cl = "compile_log (snd (run_compiled e w app))"
  let ?mods = "List.map_filter (imported_module e) (run_identifiers w app)"
  have flat: "run_compiled e w app =
      compile_exports (concat ?mods) \<lparr>ngModules = [], compile_log = []\<rparr>"
    by (simp add: run_compiled_def run_jsModules compile_loop_concat)
  have comp: "filter is_compile ?cl = map CompileModule (descriptor_keys (inspected_exports ?mods))"
    unfolding flat inspected_exports_def using compile_exports_log[of "concat ?mods"] by simp
  have mods: "ngModules (snd (run_compiled e w app)) = activated (inspected_exports ?mods)"
    unfolding flat inspected_exports_def using compile_exports_modules[of "concat ?mods"] by simp
  have res: "fst (run_compiled e w app) =
      (if list_all (\<lambda>(key, obj). \<not> test_throws obj) (concat ?mods) then None else Some TypeError)"
    unfolding flat by (rule compile_exports_result)
  have shape: "(\<exists>tail. snd (snd (loadRuntimeWidgets e w)) = run_log1 e w app @ tail \<and>
      filter is_request tail = [] \<and> filter is_compile tail = []) \<and>
      (fst (run_compiled e w app) = Some TypeError \<longrightarrow>
          fst (loadRuntimeWidgets e w) = Rejected TypeError)"
  proof (cases rule: run_cases[of e w])
    case NoUser
    with assms show ?thesis by simp
  next
    case (NoApp user' err)
    with assms show ?thesis by simp
  next
    case (CompileError user' app' err)
    with assms show ?thesis by auto
  next
    case (GateClosed user' app')
    with assms show ?thesis by simp
  next
    case (Done user' app' state w1 log2 w2 log3)
    have a: "app' = app" using Done(2) assms(2) by simp
    have r2: "filter is_request log2 = []"
      by (rule filter_none[OF register_loop_kind[OF Done(5)] register_kind_not_request])
    have c2: "filter is_compile log2 = []"
      by (rule filter_none[OF register_loop_kind[OF Done(5)] register_kind_not_compile])
    have r3: "filter is_request log3 = []"
      using auto_clean_no_request[of "run_context w app'"
        "cleanupWidgetContextPath (run_imports e w app')" "w1\<lparr>isLoaded := True\<rparr>"] Done(6) by simp
    have c3: "filter is_compile log3 = []"
      using auto_clean_no_compile[of "run_context w app'"
        "cleanupWidgetContextPath (run_imports e w app')" "w1\<lparr>isLoaded := True\<rparr>"] Done(6) by simp
    from Done(3,7) r2 c2 r3 c3 show ?thesis unfolding a by simp
  qed
  then obtain tail where t: "snd (snd (loadRuntimeWidgets e w)) = run_log1 e w app @ tail"
    "filter is_request tail = []" "filter is_compile tail = []"
    and rej: "fst (run_compiled e w app) = Some TypeError \<longrightarrow>
          fst (loadRuntimeWidgets e w) = Rejected TypeError" by blast
  have "snd (snd (loadRuntimeWidgets e w)) =
         [AlertUpdate Loading] @ ?imp @ [AlertUpdate StillWorking] @ (?cl @ tail) \<and>
       filter is_request ?imp = concat (map (requests_of e) (run_identifiers w app)) \<and>
       filter is_compile ?imp = [] \<and>
       filter is_request (?cl @ tail) = [] \<and>
       filter is_compile (?cl @ tail) =
         map CompileModule (descriptor_keys (inspected_exports ?mods)) \<and>
       ngModules (snd (run_compiled e w app)) = activated (inspected_exports ?mods) \<and>
       fst (run_compiled e w app) =
         (if list_all (\<lambda>(key, obj). \<not> test_throws obj) (concat ?mods)
          then None else Some TypeError) \<and>
       (fst (run_compiled e w app) = Some TypeError \<longrightarrow>
          fst (loadRuntimeWidgets e w) = Rejected TypeError)"
    using t comp mods res rej
    by (simp add: run_log1_def run_imports_requests run_imports_no_compile run_compiled_no_request)
  then show ?thesis by (intro exI[of _ ?imp] exI[of _ "?cl @ tail"])
qed

theorem imports_then_compilations_witness:
  "snd (snd (loadRuntimeWidgets pair_env (initial_world demo_definitions demo_inventory))) =
     [AlertUpdate Loading] @
     [AlertUpdate (LoadingWidgets 1 2), CorsImport ''a'', Interleaved ''a'',
      AlertUpdate (LoadingWidgets 2 2), CorsImport ''b'', Interleaved ''b''] @
     [AlertUpdate StillWorking] @
     [CompileModule ''AModule'', CompileModule ''BModule'',
      StateReported 1, AlertUpdate AlmostReady,
      LoadWidget 1, DynamicAdd 1, LoadWidget 2, DynamicAdd 2,
      AlertClose, IsLoadedNext True]
   \<and> loadRuntimeWidgets null_env (initial_world demo_definitions demo_inventory) =
     (Rejected TypeError, initial_world demo_definitions demo_inventory,
      [AlertUpdate Loading,
       AlertUpdate (LoadingWidgets 1 2), CorsImport ''a'', Interleaved ''a'',
       AlertUpdate (LoadingWidgets 2 2), CorsImport ''b'',
       AlertUpdate StillWorking, CompileModule ''AModule''])"
  using imports_then_compilations
    [where e = pair_env and user = "''admin''" and app = demo_app
       and w = "initial_world demo_definitions demo_inventory"]
    imports_then_compilations
    [where e = null_env and user = "''admin''" and app = demo_app
       and w = "initial_world demo_definitions demo_inventory"]
  by (simp add: pair_env_def null_env_def null_bundle_def second_module_def demo_defs run_defs)

text \<open>
  The claim as stated fails: bundle \<open>a\<close> exports a module descriptor, and the manifest
  and the entry module of the next identifier \<open>b\<close> are requested before that descriptor
  is compiled.
\<close>

theorem sequential_per_identifier_counterexample:
  "run_identifiers (initial_world demo_definitions demo_inventory) demo_app = [''a'', ''b''] \<and>
   descriptor_keys demo_bundle = [''AModule''] \<and>
   take 9 (snd (snd (loadRuntimeWidgets pair_env (initial_world demo_definitions demo_inventory)))) =
     [AlertUpdate Loading,
      AlertUpdate (LoadingWidgets 1 2), CorsImport ''a'', Interleaved ''a'',
      AlertUpdate (LoadingWidgets 2 2), CorsImport ''b'', Interleaved ''b'',
      AlertUpdate StillWorking,
      CompileModule ''AModule'']"
  by (simp add: pair_env_def second_module_def demo_defs run_defs
        descriptor_keys_def qualifies_def)

lemma compile_exports_no_descriptor:
  "list_all (\<lambda>(key, obj). descriptor_test obj = Inr False) m \<Longrightarrow>
   compile_exports m st = (None, st)"
  by (induction m st rule: compile_exports.induct) auto

subsection \<open>C7: a bundle without module descriptors\<close>

text \<open>
  Claim C7, as the code has it. When a user is logged in, the application is resolved,
  the identifier set is the single non-empty identifier \<open>cp\<close>, both imports of \<open>cp\<close>
  succeed, the descriptor test is false on every exported value (none qualifies as a
  module descriptor and the test throws on none), and the host registry reports a
  non-empty state, then \<open>loadRuntimeWidgets\<close> resolves, \<open>isLoaded$\<close> is set to true, the
  table \<open>widgetFactories\<close> and the inventory of runtime contexts are as before, and the
  log is the progress messages, the two imports and the signal: no \<open>alertService.danger\<close>
  and no \<open>console.error\<close>, so no warning is surfaced.
\<close>

theorem bundle_without_descriptors:
  assumes "currentUser e = Some user" and "find_current_app e = Inr app"
    and "run_identifiers w app = [cp]" and "cp \<noteq> []"
    and "cp \<in> set (manifests e)" and "map_of (bundles e) cp = Some m"
    and "list_all (\<lambda>(key, obj). descriptor_test obj = Inr False) m"
    and "first_nonempty_state e = Some state"
  shows "loadRuntimeWidgets e w =
           (Resolved, w\<lparr>host_registry := state, isLoaded := True\<rparr>,
            [AlertUpdate Loading, AlertUpdate (LoadingWidgets 1 1), CorsImport cp, Interleaved cp,
             AlertUpdate StillWorking, StateReported (length state), AlertUpdate AlmostReady,
             AlertClose, IsLoadedNext True])"
proof -
  have ids: "contextPaths_of app (find_runtime_context (inventory w) app) = [cp]"
    using assms(3) by (simp add: run_identifiers_def run_context_def)
  have imp: "import_loop e [cp] =
      \<lparr>jsModules = [m], cleanupWidgetContextPath = [], widgetCounter = 1,
       import_log = [AlertUpdate (LoadingWidgets 1 1), CorsImport cp, Interleaved cp]\<rparr>"
    using assms(4,5,6) by (simp add: import_loop_def import_step_def Let_def)
  have comp: "compile_loop [m] \<lparr>ngModules = [], compile_log = []\<rparr> =
      (None, \<lparr>ngModules = [], compile_log = []\<rparr>)"
    using compile_exports_no_descriptor[OF assms(7)] by simp
  have clean: "auto_clean rc [] w' = (w', [])" for rc w'
    by (simp add: auto_clean_def split: option.splits)
  show ?thesis
    using assms(1,2,8) ids imp comp clean
    by (simp add: loadRuntimeWidgets_def register_loop_def)
qed

theorem bundle_without_descriptors_witness:
  "loadRuntimeWidgets helper_env (initial_world demo_definitions single_inventory) =
     (Resolved,
      \<lparr>isLoaded = True, widgetFactories = [], definitions = demo_definitions,
       host_registry = [0], inventory = single_inventory\<rparr>,
      [AlertUpdate Loading, AlertUpdate (LoadingWidgets 1 1), CorsImport ''a'', Interleaved ''a'',
       AlertUpdate StillWorking, StateReported 1, AlertUpdate AlmostReady,
       AlertClose, IsLoadedNext True])"
  using bundle_without_descriptors
    [where e = helper_env and user = "''admin''" and app = demo_app and cp = "''a''"
       and w = "initial_world demo_definitions single_inventory" and m = helper_bundle
       and state = "[0]"]
  by (simp add: helper_env_def helper_bundle_def single_inventory_def
        demo_shared_app_def demo_app_def demo_env_def initial_world_def run_defs)

text \<open>
  The claim as stated fails: in the scenario the run surfaces no warning.
\<close>

theorem warning_without_descriptors_counterexample:
  "run_identifiers (initial_world demo_definitions single_inventory) demo_app = [''a''] \<and>
   ''a'' \<in> set (manifests helper_env) \<and>
   map_of (bundles helper_env) ''a'' = Some helper_bundle \<and>
   descriptor_keys helper_bundle = [] \<and>
   fst (loadRuntimeWidgets helper_env (initial_world demo_definitions single_inventory)) = Resolved \<and>
   filter is_warning (snd (snd (loadRuntimeWidgets helper_env (initial_world demo_definitions single_inventory)))) = [] \<and>
   filter is_console_error (snd (snd (loadRuntimeWidgets helper_env (initial_world demo_definitions single_inventory)))) = []"
  by (simp add: helper_env_def helper_bundle_def single_inventory_def
        demo_shared_app_def demo_app_def demo_env_def initial_world_def run_defs
        descriptor_keys_def qualifies_def)

lemma filter_key_distinct:
  "distinct (map fst al) \<Longrightarrow> map_of al k = Some v \<Longrightarrow> filter (\<lambda>p. fst p = k) al = [(k, v)]"
proof (induction al)
  case Nil
  then show ?case by simp
next
  case (Cons p al)
  show ?case
  proof (cases "fst p = k")
    case True
    with Cons.prems have "p = (k, v)" by (cases p) simp
    moreover from True Cons.prems have "k \<notin> fst ` set al" by auto
    then have "filter (\<lambda>p. fst p = k) al = []" by (auto simp: filter_empty_conv)
    ultimately show ?thesis by simp
  next
    case False
    with Cons show ?thesis by (cases p) auto
  qed
qed

lemma build_factories_flag:
  "build_factories m (d\<lparr>isRuntimeLoaded := b\<rparr>) = build_factories m d"
  by (simp add: build_factories_def split: option.splits)

lemma build_factories_Some:
  "build_factories m d = Some entry \<Longrightarrow>
     componentFactory entry = Factory (module_injector m) (component d) \<and>
     configComponentFactory entry = map_option (Factory (module_injector m)) (configComponent d) \<and>
     injector entry = module_injector m"
  by (auto simp: build_factories_def resolveComponentFactory_def split: option.splits if_splits)

lemma build_factories_None:
  "build_factories m d = None \<longleftrightarrow>
     component d \<notin> set (entryComponents m) \<or>
     (\<exists>cc. configComponent d = Some cc \<and> cc \<notin> set (entryComponents m))"
  by (auto simp: build_factories_def resolveComponentFactory_def split: option.splits if_splits)

lemma distinct_loadWidget:
  "distinct (map fst (widgetFactories (fst st))) \<Longrightarrow>
   distinct (map fst (widgetFactories (fst (loadWidget m d st))))"
  by (cases st) (simp add: Let_def mark_runtime_loaded_def distinct_update split: option.splits)

lemma definitions_loadWidget:
  "definitions (fst (loadWidget m d (w, log))) =
     (definitions w)(d := (definitions w d)\<lparr>isRuntimeLoaded := True\<rparr>)"
  by (simp add: Let_def mark_runtime_loaded_def split: option.splits)

lemma build_factories_marked:
  "build_factories m (definitions (mark_runtime_loaded d w) x) = build_factories m (definitions w x)"
  by (simp add: mark_runtime_loaded_def build_factories_flag)

lemma def_id_marked: "def_id (definitions (mark_runtime_loaded d w) x) = def_id (definitions w x)"
  by (simp add: mark_runtime_loaded_def)

subsection \<open>C4: two definitions with the same id\<close>

text \<open>
  Claim C4. Two definitions with the same id are passed to \<open>loadWidget\<close>, one after the
  other, and the factories of the second can be built. Then the table \<open>widgetFactories\<close>
  has exactly one entry under that id; it holds the component factory, the config
  component factory and the injector of the second definition's module; the keys of the
  table stay distinct; and the second call ends with \<open>dynamicComponentService.add\<close>, with
  no error logged or alerted.
\<close>

theorem same_id_last_write_wins:
  assumes "def_id (definitions w d1) = def_id (definitions w d2)"
    and "build_factories m2 (definitions w d2) = Some entry"
    and "distinct (map fst (widgetFactories w))"
  shows
    "filter (\<lambda>p. fst p = def_id (definitions w d2))
       (widgetFactories (fst (loadWidget m2 d2 (loadWidget m1 d1 (w, log))))) =
         [(def_id (definitions w d2), entry)]
     \<and> map_of (widgetFactories (fst (loadWidget m2 d2 (loadWidget m1 d1 (w, log)))))
           (def_id (definitions w d1)) = Some entry
     \<and> componentFactory entry = Factory (module_injector m2) (component (definitions w d2))
     \<and> configComponentFactory entry =
           map_option (Factory (module_injector m2)) (configComponent (definitions w d2))
     \<and> injector entry = module_injector m2
     \<and> distinct (map fst (widgetFactories (fst (loadWidget m2 d2 (loadWidget m1 d1 (w, log))))))
     \<and> snd (loadWidget m2 d2 (loadWidget m1 d1 (w, log))) =
         snd (loadWidget m1 d1 (w, log)) @ [LoadWidget d2, DynamicAdd d2]
     \<and> isRuntimeLoaded (definitions (fst (loadWidget m2 d2 (loadWidget m1 d1 (w, log)))) d2)
     \<and> d2 \<in> set (host_registry (fst (loadWidget m2 d2 (loadWidget m1 d1 (w, log)))))"
proof -
  obtain w1 log1 where first: "loadWidget m1 d1 (w, log) = (w1, log1)"
    by (cases "loadWidget m1 d1 (w, log)")
  have defs1: "definitions w1 = (definitions w)(d1 := (definitions w d1)\<lparr>isRuntimeLoaded := True\<rparr>)"
    using definitions_loadWidget[of m1 d1 w log] unfolding first by simp
  have id2: "def_id (definitions w1 d2) = def_id (definitions w d2)"
    by (simp add: defs1)
  have build2: "build_factories m2 (definitions w1 d2) = Some entry"
    using assms(2) by (auto simp: defs1 build_factories_flag)
  have d1: "distinct (map fst (widgetFactories w1))"
    using distinct_loadWidget[of "(w, log)" m1 d1] assms(3) unfolding first by simp
  let ?t = "AList.update (def_id (definitions w d2)) entry (widgetFactories w1)"
  have second: "loadWidget m2 d2 (w1, log1) =
      ((mark_runtime_loaded d2 w1)\<lparr>widgetFactories := ?t,
          host_registry := host_registry w1 @ [d2]\<rparr>,
       log1 @ [LoadWidget d2, DynamicAdd d2])"
    using build2 id2
    by (simp add: Let_def build_factories_marked def_id_marked) (simp add: mark_runtime_loaded_def)
  have look: "map_of ?t (def_id (definitions w d2)) = Some entry" by (simp add: update_conv')
  have dist: "distinct (map fst ?t)" using d1 by (simp add: distinct_update)
  have one: "filter (\<lambda>p. fst p = def_id (definitions w d2)) ?t = [(def_id (definitions w d2), entry)]"
    by (rule filter_key_distinct[OF dist look])
  show ?thesis
    unfolding first second
    using look dist one build_factories_Some[OF assms(2)] assms(1)
    by (simp add: mark_runtime_loaded_def)
qed

theorem same_id_last_write_wins_witness:
  "widgetFactories (fst (loadWidget second_module 3
       (loadWidget demo_module 1 (initial_world demo_definitions [], [])))) =
     [(''w1'', \<lparr>componentFactory = Factory ''b-injector'' ''W2Component'',
                configComponentFactory = None, injector = ''b-injector''\<rparr>)]
   \<and> snd (loadWidget second_module 3
       (loadWidget demo_module 1 (initial_world demo_definitions [], []))) =
     [LoadWidget 1, DynamicAdd 1, LoadWidget 3, DynamicAdd 3]
   \<and> host_registry (fst (loadWidget second_module 3
       (loadWidget demo_module 1 (initial_world demo_definitions [], [])))) = [1, 3]"
  using same_id_last_write_wins
    [where ?d1.0 = 1 and ?d2.0 = 3 and ?m1.0 = demo_module
       and ?m2.0 = second_module and w = "initial_world demo_definitions []" and log = "[]"
       and entry = "\<lparr>componentFactory = Factory ''b-injector'' ''W2Component'',
                configComponentFactory = None, injector = ''b-injector''\<rparr>"]
  by (simp add: second_module_def demo_defs mark_runtime_loaded_def
        build_factories_def resolveComponentFactory_def Let_def)

lemma consistent_loadWidget:
  assumes "registry_consistent (fst st)" and "batch_registered batch (fst st)" and "d \<in> set batch"
  shows "registry_consistent (fst (loadWidget m d st)) \<and>
         batch_registered batch (fst (loadWidget m d st))"
proof (cases st)
  case (Pair w log)
  show ?thesis
  proof (cases "build_factories m (definitions w d)")
    case None
    then have "loadWidget m d st = (mark_runtime_loaded d w,
        log @ [LoadWidget d, ConsoleError load_error, AlertDanger load_danger])"
      using Pair by (simp add: Let_def build_factories_marked)
    with assms Pair show ?thesis
      by (auto simp: registry_consistent_def batch_registered_def has_factories_def
            mark_runtime_loaded_def list_all_iff)
  next
    case (Some entry)
    then have "loadWidget m d st =
        ((mark_runtime_loaded d w)\<lparr>widgetFactories :=
            AList.update (def_id (definitions w d)) entry (widgetFactories w),
            host_registry := host_registry w @ [d]\<rparr>,
         log @ [LoadWidget d, DynamicAdd d])"
      using Pair
      by (simp add: Let_def build_factories_marked def_id_marked) (simp add: mark_runtime_loaded_def)
    with assms Pair show ?thesis
      by (auto simp: registry_consistent_def batch_registered_def has_factories_def
            mark_runtime_loaded_def list_all_iff update_conv')
  qed
qed

lemma consistent_foldl_loadWidget:
  "registry_consistent (fst st) \<Longrightarrow> batch_registered batch (fst st) \<Longrightarrow>
   set ds \<subseteq> set batch \<Longrightarrow>
   registry_consistent (fst (foldl (\<lambda>st' widget. loadWidget m widget st') st ds)) \<and>
   batch_registered batch (fst (foldl (\<lambda>st' widget. loadWidget m widget st') st ds))"
proof (induction ds arbitrary: st)
  case Nil
  then show ?case by simp
next
  case (Cons d ds)
  from Cons.prems have "d \<in> set batch" and sub: "set ds \<subseteq> set batch" by simp_all
  from consistent_loadWidget[OF Cons.prems(1,2) this(1), of m]
  have "registry_consistent (fst (loadWidget m d st))"
    and "batch_registered batch (fst (loadWidget m d st))" by simp_all
  from Cons.IH[OF this sub] show ?case by simp
qed

lemma consistent_register_loop:
  "registry_consistent (fst st) \<Longrightarrow> batch_registered batch (fst st) \<Longrightarrow>
   set (concat (map hook_definitions ms)) \<subseteq> set batch \<Longrightarrow>
   registry_consistent (fst (register_loop ms st)) \<and>
   batch_registered batch (fst (register_loop ms st))"
  unfolding register_loop_def
proof (induction ms arbitrary: st)
  case Nil
  then show ?case by simp
next
  case (Cons m ms)
  from Cons.prems(3) have s1: "set (hook_definitions m) \<subseteq> set batch"
    and s2: "set (concat (map hook_definitions ms)) \<subseteq> set batch" by simp_all
  from consistent_foldl_loadWidget[OF Cons.prems(1,2) s1, of m]
  have "registry_consistent (fst (register_module m st))"
    and "batch_registered batch (fst (register_module m st))"
    by (simp_all add: register_module_def)
  from Cons.IH[OF this s2] show ?case by simp
qed

lemma batch_registered_fresh:
  "list_all (\<lambda>r. r \<notin> set (host_registry w)) batch \<Longrightarrow> batch_registered batch w"
  by (simp add: batch_registered_def list_all_iff)

subsection \<open>C9: a definition whose factories cannot be built\<close>

text \<open>
  Claim C9, as the code has it. When the component factory or the config component
  factory of a definition cannot be resolved, \<open>loadWidget\<close> returns normally: the
  definition object is marked runtime-sourced all the same (the mark is written before
  the \<open>try\<close>), the table \<open>widgetFactories\<close> is not written, nothing is added to the host
  registry, and the failure is logged and alerted. The loop over the definitions of the
  module goes on with the remaining definitions, and the registration loop calls
  \<open>loadWidget\<close> for every definition of every module whatever fails. \<open>loadWidget\<close> keeps
  the two registries consistent (every runtime-sourced definition of the host registry
  has an entry under its id in \<open>widgetFactories\<close>) when its definition object is not in
  the host registry, or is there with an entry under its id; the registration loop keeps
  them consistent when this holds of every definition object of the batch, so in
  particular when the host registry holds none of them beforehand.
\<close>

theorem failed_factories_mark_only:
  assumes "build_factories m (definitions w d) = None"
  shows
    "loadWidget m d (w, log) =
       (mark_runtime_loaded d w,
        log @ [LoadWidget d, ConsoleError load_error, AlertDanger load_danger])
     \<and> isRuntimeLoaded (definitions (fst (loadWidget m d (w, log))) d)
     \<and> widgetFactories (fst (loadWidget m d (w, log))) = widgetFactories w
     \<and> host_registry (fst (loadWidget m d (w, log))) = host_registry w
     \<and> foldl (\<lambda>st' widget. loadWidget m widget st') (w, log) (d # ds) =
         foldl (\<lambda>st' widget. loadWidget m widget st')
           (mark_runtime_loaded d w,
            log @ [LoadWidget d, ConsoleError load_error, AlertDanger load_danger]) ds
     \<and> filter is_load (snd (register_loop ms (w, log))) =
         filter is_load log @ map LoadWidget (concat (map hook_definitions ms))
     \<and> (registry_consistent w \<and> (d' \<in> set (host_registry w) \<longrightarrow> has_factories w d') \<longrightarrow>
          registry_consistent (fst (loadWidget m' d' (w, log))))
     \<and> (registry_consistent w \<and> batch_registered (concat (map hook_definitions ms)) w \<longrightarrow>
          registry_consistent (fst (register_loop ms (w, log))))
     \<and> (list_all (\<lambda>r. r \<notin> set (host_registry w)) (concat (map hook_definitions ms)) \<longrightarrow>
          batch_registered (concat (map hook_definitions ms)) w)"
proof -
  have one: "loadWidget m d (w, log) =
       (mark_runtime_loaded d w,
        log @ [LoadWidget d, ConsoleError load_error, AlertDanger load_danger])"
    using assms by (simp add: Let_def build_factories_marked)
  have mark: "isRuntimeLoaded (definitions (fst (loadWidget m d (w, log))) d)"
    "widgetFactories (fst (loadWidget m d (w, log))) = widgetFactories w"
    "host_registry (fst (loadWidget m d (w, log))) = host_registry w"
    unfolding one by (simp_all add: mark_runtime_loaded_def)
  have rest: "foldl (\<lambda>st' widget. loadWidget m widget st') (w, log) (d # ds) =
         foldl (\<lambda>st' widget. loadWidget m widget st')
           (mark_runtime_loaded d w,
            log @ [LoadWidget d, ConsoleError load_error, AlertDanger load_danger]) ds"
    using one by simp
  have calls: "filter is_load (snd (register_loop ms (w, log))) =
         filter is_load log @ map LoadWidget (concat (map hook_definitions ms))"
    using loads_register_loop[of ms "(w, log)"] by simp
  have inv1: "registry_consistent (fst (loadWidget m' d' (w, log)))"
    if "registry_consistent w" "d' \<in> set (host_registry w) \<longrightarrow> has_factories w d'"
    using consistent_loadWidget[of "(w, log)" "[d']" d' m'] that
    by (simp add: batch_registered_def)
  have inv2: "registry_consistent (fst (register_loop ms (w, log)))"
    if "registry_consistent w" "batch_registered (concat (map hook_definitions ms)) w"
    using consistent_register_loop[of "(w, log)" "concat (map hook_definitions ms)" ms] that
    by simp
  have fresh: "batch_registered (concat (map hook_definitions ms)) w"
    if "list_all (\<lambda>r. r \<notin> set (host_registry w)) (concat (map hook_definitions ms))"
    using that by (rule batch_registered_fresh)
  from one mark rest calls inv1 inv2 fresh show ?thesis by blast
qed

theorem failed_factories_mark_only_witness:
  "build_factories broken_module (definitions (initial_world demo_definitions demo_inventory) 1) = None
   \<and> widgetFactories (fst (loadWidget broken_module 1 (initial_world demo_definitions demo_inventory, []))) = []
   \<and> host_registry (fst (loadWidget broken_module 1 (initial_world demo_definitions demo_inventory, []))) = []
   \<and> isRuntimeLoaded (definitions
         (fst (loadWidget broken_module 1 (initial_world demo_definitions demo_inventory, []))) 1)
   \<and> snd (loadWidget broken_module 1 (initial_world demo_definitions demo_inventory, [])) =
       [LoadWidget 1, ConsoleError load_error, AlertDanger load_danger]
   \<and> registry_consistent (initial_world demo_definitions demo_inventory)
   \<and> registry_consistent
       (fst (register_loop [broken_module, demo_module] (initial_world demo_definitions demo_inventory, [])))
   \<and> filter is_load (snd (register_loop [broken_module, demo_module]
         (initial_world demo_definitions demo_inventory, []))) =
       [LoadWidget 0, LoadWidget 1, LoadWidget 1]
   \<and> widgetFactories (fst (register_loop [broken_module, demo_module]
         (initial_world demo_definitions demo_inventory, []))) =
       [(''w1'', \<lparr>componentFactory = Factory ''a-injector'' ''W1Component'',
                  configComponentFactory = Some (Factory ''a-injector'' ''W1Config''),
                  injector = ''a-injector''\<rparr>)]
   \<and> host_registry (fst (register_loop [broken_module, demo_module]
         (initial_world demo_definitions demo_inventory, []))) = [1]"
  using failed_factories_mark_only
    [where m = broken_module and d = 1 and w = "initial_world demo_definitions demo_inventory"
       and log = "[]" and ms = "[broken_module, demo_module]"]
  by (simp add: broken_module_def registry_consistent_def batch_registered_def has_factories_def
        demo_defs register_loop_def mark_runtime_loaded_def
        register_module_def hook_definitions_def or_empty_def build_factories_def
        resolveComponentFactory_def Let_def)

text \<open>
  The claim as stated fails: the host registry holds the built-in definition, object 0,
  the two registries are consistent, and \<open>loadWidget\<close> is called with that object and a
  module that cannot build its factories. The table and the list of the host registry
  are as before, but the object is now marked runtime-sourced and has no entry in
  \<open>widgetFactories\<close>.
\<close>

theorem registry_consistent_counterexample:
  "host_registry host_world = [0]
   \<and> registry_consistent host_world
   \<and> build_factories broken_module (definitions host_world 0) = None
   \<and> widgetFactories (fst (loadWidget broken_module 0 (host_world, []))) = []
   \<and> host_registry (fst (loadWidget broken_module 0 (host_world, []))) = [0]
   \<and> isRuntimeLoaded (definitions (fst (loadWidget broken_module 0 (host_world, []))) 0)
   \<and> \<not> registry_consistent (fst (loadWidget broken_module 0 (host_world, [])))"
  by (simp add: host_world_def broken_module_def registry_consistent_def has_factories_def
        demo_defs mark_runtime_loaded_def build_factories_def resolveComponentFactory_def Let_def)

lemma warnings_foldl_import_step:
  "filter is_warning (import_log (foldl (import_step e n) st cps)) =
     filter is_warning (import_log st) @
     map (\<lambda>cp. AlertDanger import_danger) (filter (entry_failed e) cps)"
  by (induction cps arbitrary: st)
     (auto simp: import_step_def entry_failed_def Let_def split: option.splits)

lemma run_imports_warnings:
  "filter is_warning (import_log (run_imports e w app)) =
     map (\<lambda>cp. AlertDanger import_danger) (filter (entry_failed e) (run_identifiers w app))"
  by (simp add: run_imports_def import_loop_def warnings_foldl_import_step)

lemma import_log_grows:
  "set (import_log st) \<subseteq> set (import_log (import_step e n st cp))"
  by (auto simp: import_step_def Let_def split: option.splits)

lemma import_log_foldl_grows:
  "set (import_log st) \<subseteq> set (import_log (foldl (import_step e n) st cps))"
proof (induction cps arbitrary: st)
  case Nil
  then show ?case by simp
next
  case (Cons cp cps)
  from import_log_grows[of st e n cp] Cons.IH[of "import_step e n st cp"]
  show ?case by auto
qed

lemma manifest_logged_step:
  "cp \<noteq> [] \<Longrightarrow> cp \<notin> set (manifests e) \<Longrightarrow> known_app e cp \<Longrightarrow>
   ConsoleError (manifest_error cp) \<in> set (import_log (import_step e n st cp))"
  by (simp add: import_step_def Let_def)

lemma manifest_logged_foldl:
  "cp \<in> set cps \<Longrightarrow> cp \<noteq> [] \<Longrightarrow> cp \<notin> set (manifests e) \<Longrightarrow> known_app e cp \<Longrightarrow>
   ConsoleError (manifest_error cp) \<in> set (import_log (foldl (import_step e n) st cps))"
proof (induction cps arbitrary: st)
  case Nil
  then show ?case by simp
next
  case (Cons c cps)
  show ?case
  proof (cases "c = cp")
    case True
    from manifest_logged_step[OF Cons.prems(2,3,4), of n st]
      import_log_foldl_grows[of "import_step e n st cp" e n cps] True
    show ?thesis by auto
  next
    case False
    with Cons.prems have "cp \<in> set cps" by simp
    from Cons.IH[OF this Cons.prems(2,3,4)] show ?thesis by simp
  qed
qed

lemma run_log_contains_imports:
  assumes "currentUser e = Some user" and "find_current_app e = Inr app"
  shows "set (import_log (run_imports e w app)) \<subseteq> set (snd (snd (loadRuntimeWidgets e w)))"
proof (cases rule: run_cases[of e w])
  case NoUser
  with assms show ?thesis by simp
next
  case (NoApp user' err)
  with assms show ?thesis by simp
next
  case (CompileError user' app' err)
  with assms show ?thesis by (auto simp: run_log1_def)
next
  case (GateClosed user' app')
  with assms show ?thesis by (auto simp: run_log1_def)
next
  case (Done user' app' state w1 log2 w2 log3)
  with assms show ?thesis by (auto simp: run_log1_def)
qed

lemma cleanup_flag_stays: "snd (foldl cleanup_step (ps, True) cl) = True"
  by (induction cl arbitrary: ps) simp_all

lemma cleanup_unchanged:
  "\<not> snd (foldl cleanup_step (ps, b) cl) \<Longrightarrow> fst (foldl cleanup_step (ps, b) cl) = ps"
proof (induction cl arbitrary: ps b)
  case Nil
  then show ?case by simp
next
  case (Cons c cl)
  show ?case
  proof (cases "c \<in> set ps")
    case True
    with Cons.prems cleanup_flag_stays[of "remove1 c ps" cl] show ?thesis by simp
  next
    case False
    with Cons show ?thesis by simp
  qed
qed

lemma cleanup_subset: "set (fst (foldl cleanup_step (ps, b) cl)) \<subseteq> set ps"
proof (induction cl arbitrary: ps b)
  case Nil
  then show ?case by simp
next
  case (Cons c cl)
  from Cons[of "remove1 c ps" True] Cons[of ps b] set_remove1_subset[of c ps]
  show ?case by (cases "c \<in> set ps") auto
qed

lemma cleanup_distinct: "distinct ps \<Longrightarrow> distinct (fst (foldl cleanup_step (ps, b) cl))"
  by (induction cl arbitrary: ps b) simp_all

lemma cleanup_removes:
  "distinct ps \<Longrightarrow> c \<in> set cl \<Longrightarrow> c \<notin> set (fst (foldl cleanup_step (ps, b) cl))"
proof (induction cl arbitrary: ps b)
  case Nil
  then show ?case by simp
next
  case (Cons x cl)
  show ?case
  proof (cases "x = c")
    case True
    have "c \<notin> set (remove1 c ps)" using Cons.prems(1) by simp
    with cleanup_subset[of "remove1 c ps" True cl] cleanup_subset[of ps b cl] True
    show ?thesis by (cases "c \<in> set ps") auto
  next
    case False
    with Cons.prems have m: "c \<in> set cl" by simp
    from Cons.IH[OF _ m, of "remove1 x ps" True] Cons.IH[OF _ m, of ps b] Cons.prems(1)
    show ?thesis by (cases "x \<in> set ps") simp_all
  qed
qed

lemma inventory_loadWidget: "inventory (fst (loadWidget m d st)) = inventory (fst st)"
  by (cases st) (simp add: Let_def mark_runtime_loaded_def split: option.splits)

lemma inventory_foldl_loadWidget:
  "inventory (fst (foldl (\<lambda>st' widget. loadWidget m widget st') st ds)) = inventory (fst st)"
  by (induction ds arbitrary: st) (simp_all add: inventory_loadWidget)

lemma inventory_register_loop: "inventory (fst (register_loop ms st)) = inventory (fst st)"
  unfolding register_loop_def
  by (induction ms arbitrary: st) (simp_all add: register_module_def inventory_foldl_loadWidget)

lemma find_after_update:
  "find (\<lambda>path. appId path = a) (invService_update i ps rcs) =
     map_option (\<lambda>r. if rc_id r = i then r\<lparr>widgetContextPaths := Some ps\<rparr> else r)
       (find (\<lambda>path. appId path = a) rcs)"
  by (induction rcs) (simp_all add: invService_update_def)

lemma auto_clean_paths:
  assumes "find_runtime_context (inventory w) app = rc"
  shows "rc_paths (find_runtime_context (inventory (fst (auto_clean rc cl w))) app) =
           fst (foldl cleanup_step (rc_paths rc, False) cl)"
proof -
  have empty: "fst (foldl cleanup_step ([], False) cl) = []"
    using cleanup_subset[of "[]" False cl] by simp
  show ?thesis
  proof (cases rc)
    case None
    with assms empty show ?thesis by (simp add: auto_clean_def rc_paths_def)
  next
    case (Some r)
    note r = this
    show ?thesis
    proof (cases "widgetContextPaths r")
      case None
      with r assms empty show ?thesis by (simp add: auto_clean_def rc_paths_def or_empty_def)
    next
      case (Some paths)
      note p = this
      obtain paths' ch where f: "foldl cleanup_step (paths, False) cl = (paths', ch)"
        by (cases "foldl cleanup_step (paths, False) cl")
      show ?thesis
      proof (cases ch)
        case True
        have "find (\<lambda>path. appId path = app_id app) (inventory w) = Some r"
          using assms r by (simp add: find_runtime_context_def)
        then have "find_runtime_context (invService_update (rc_id r) paths' (inventory w)) app =
            Some (r\<lparr>widgetContextPaths := Some paths'\<rparr>)"
          by (simp add: find_runtime_context_def find_after_update)
        with True f p r show ?thesis by (simp add: auto_clean_def rc_paths_def or_empty_def)
      next
        case False
        with f cleanup_unchanged[of paths False cl] have "paths' = paths" by simp
        with False f p r assms show ?thesis by (simp add: auto_clean_def rc_paths_def or_empty_def)
      qed
    qed
  qed
qed

lemma run_final_paths:
  assumes "fst (loadRuntimeWidgets e w) = Resolved" and "find_current_app e = Inr app"
  shows "rc_paths (run_context (fst (snd (loadRuntimeWidgets e w))) app) =
           fst (foldl cleanup_step (rc_paths (run_context w app), False)
                  (cleanupWidgetContextPath (run_imports e w app)))"
proof (cases rule: run_cases[of e w])
  case NoUser
  with assms show ?thesis by simp
next
  case (NoApp user' err)
  with assms show ?thesis by simp
next
  case (CompileError user' app' err)
  with assms show ?thesis by simp
next
  case (GateClosed user' app')
  with assms show ?thesis by simp
next
  case (Done user' app' state w1 log2 w2 log3)
  have a: "app' = app" using Done(2) assms(2) by simp
  have "inventory w1 = inventory w"
    using inventory_register_loop[of "ngModules (snd (run_compiled e w app'))"
        "(w\<lparr>host_registry := state\<rparr>, [])"] Done(5) by simp
  then have rc: "find_runtime_context (inventory (w1\<lparr>isLoaded := True\<rparr>)) app = run_context w app"
    by (simp add: run_context_def)
  from auto_clean_paths[OF rc, of "cleanupWidgetContextPath (run_imports e w app)"] Done(6,7)
  show ?thesis unfolding a by (simp add: run_context_def)
qed

lemma run_unresolved_world:
  "fst (loadRuntimeWidgets e w) \<noteq> Resolved \<Longrightarrow> fst (snd (loadRuntimeWidgets e w)) = w"
  by (cases rule: run_cases[of e w]) simp_all

subsection \<open>C1: an identifier whose manifest import fails\<close>

text \<open>
  Claim C1, as the code has it. A user is logged in, the application is resolved, and the
  manifest import of the non-empty identifier \<open>cp\<close> of the identifier set fails. Then the
  manifest of \<open>cp\<close> was requested and its entry module is not; the batch goes on: the run
  requests the imports of every identifier of the set, in order, and collects the module
  of every identifier whose two imports succeed; and the failure raises no alert (the
  alerts of the first loop are one for each identifier whose manifest was imported and
  whose entry module was not).
  If no application of the fetched list has the context path \<open>cp\<close>, the failure is not
  logged, \<open>cp\<close> is marked for removal, and when the run resolves and the list of the
  runtime context has no duplicates, \<open>cp\<close> is no longer in that list at the end of the run.
  If an application has the context path \<open>cp\<close>, the failure is logged with
  \<open>console.error\<close>, \<open>cp\<close> is not marked for removal and, if it was in the list of the
  runtime context, it still is at the end of the run.
\<close>

theorem manifest_failure_classified:
  assumes "currentUser e = Some user" and "find_current_app e = Inr app"
    and "cp \<in> set (run_identifiers w app)" and "cp \<noteq> []" and "cp \<notin> set (manifests e)"
  shows
    "CorsImport cp \<in> set (snd (snd (loadRuntimeWidgets e w)))
     \<and> Interleaved cp \<notin> set (snd (snd (loadRuntimeWidgets e w)))
     \<and> filter is_request (snd (snd (loadRuntimeWidgets e w))) =
         concat (map (requests_of e) (run_identifiers w app))
     \<and> jsModules (run_imports e w app) =
         List.map_filter (imported_module e) (run_identifiers w app)
     \<and> filter is_warning (import_log (run_imports e w app)) =
         map (\<lambda>c. AlertDanger import_danger) (filter (entry_failed e) (run_identifiers w app))
     \<and> \<not> entry_failed e cp
     \<and> (\<not> known_app e cp \<longrightarrow>
          ConsoleError (manifest_error cp) \<notin> set (snd (snd (loadRuntimeWidgets e w))) \<and>
          cp \<in> set (cleanupWidgetContextPath (run_imports e w app)) \<and>
          (fst (loadRuntimeWidgets e w) = Resolved \<and> distinct (rc_paths (run_context w app)) \<longrightarrow>
             cp \<notin> set (rc_paths (run_context (fst (snd (loadRuntimeWidgets e w))) app))))
     \<and> (known_app e cp \<longrightarrow>
          ConsoleError (manifest_error cp) \<in> set (snd (snd (loadRuntimeWidgets e w))) \<and>
          cp \<notin> set (cleanupWidgetContextPath (run_imports e w app)) \<and>
          (cp \<in> set (rc_paths (run_context w app)) \<longrightarrow>
             cp \<in> set (rc_paths (run_context (fst (snd (loadRuntimeWidgets e w))) app))))"
proof -
  let ?run = "loadRuntimeWidgets e w"
  let ?log = "snd (snd ?run)"
  let ?ids = "run_identifiers w app"
  let ?cl = "cleanupWidgetContextPath (run_imports e w app)"
  have req: "filter is_request ?log = concat (map (requests_of e) ?ids)"
    using run_requests[OF assms(2), of w] assms(1) by simp
  have mine: "requests_of e cp = [CorsImport cp]"
    using assms(4,5) by (simp add: requests_of_def)
  have cors: "CorsImport cp \<in> set ?log"
  proof -
    have "CorsImport cp \<in> set (concat (map (requests_of e) ?ids))"
      using assms(3) mine by (auto intro!: bexI[of _ cp])
    then have "CorsImport cp \<in> set (filter is_request ?log)" unfolding req .
    then show ?thesis by simp
  qed
  have inter: "Interleaved cp \<notin> set ?log"
  proof
    assume "Interleaved cp \<in> set ?log"
    from run_requests_member[OF assms(2) this] obtain c where
      c: "c \<in> set ?ids" "Interleaved cp \<in> set (requests_of e c)" by auto
    from requests_of_cases[OF c(2)] have "c = cp" by simp
    with c(2) mine show False by simp
  qed
  have mods: "jsModules (run_imports e w app) = List.map_filter (imported_module e) ?ids"
    by (rule run_jsModules)
  have warn: "filter is_warning (import_log (run_imports e w app)) =
      map (\<lambda>c. AlertDanger import_danger) (filter (entry_failed e) ?ids)"
    by (rule run_imports_warnings)
  have nofail: "\<not> entry_failed e cp" using assms(5) by (simp add: entry_failed_def)
  have final_known: "cp \<in> set (rc_paths (run_context (fst (snd ?run)) app))"
    if k: "cp \<notin> set ?cl" and m: "cp \<in> set (rc_paths (run_context w app))"
  proof (cases "fst ?run = Resolved")
    case True
    from cleanup_step_keeps[OF k m, of False] run_final_paths[OF True assms(2)]
    show ?thesis by simp
  next
    case False
    from run_unresolved_world[OF this] m show ?thesis by simp
  qed
  have unknown: "ConsoleError (manifest_error cp) \<notin> set ?log \<and> cp \<in> set ?cl \<and>
      (fst ?run = Resolved \<and> distinct (rc_paths (run_context w app)) \<longrightarrow>
         cp \<notin> set (rc_paths (run_context (fst (snd ?run)) app)))"
    if u: "\<not> known_app e cp"
  proof (intro conjI impI)
    show "ConsoleError (manifest_error cp) \<notin> set ?log"
    proof
      assume "ConsoleError (manifest_error cp) \<in> set ?log"
      from run_console_error[OF assms(2) this]
      consider c where "known_app e c" "manifest_error cp = manifest_error c"
        | c where "manifest_error cp = module_error c"
        | "manifest_error cp = compile_error" | "manifest_error cp = load_error"
        by blast
      then show False
      proof cases
        case 1
        from manifest_error_inj[OF 1(2)] 1(1) u show False by simp
      next
        case 2
        with manifest_module[of cp c] show False by simp
      next
        case 3
        with error_texts(1)[of cp] show False by simp
      next
        case 4
        with error_texts(2)[of cp] show False by simp
      qed
    qed
    show m: "cp \<in> set ?cl"
      using assms(3,4,5) u by (simp add: run_cleanup failed_unknown_def)
    assume "fst ?run = Resolved \<and> distinct (rc_paths (run_context w app))"
    then have r: "fst ?run = Resolved" and d: "distinct (rc_paths (run_context w app))" by simp_all
    from cleanup_removes[OF d m, of False] run_final_paths[OF r assms(2)]
    show "cp \<notin> set (rc_paths (run_context (fst (snd ?run)) app))" by simp
  qed
  have known: "ConsoleError (manifest_error cp) \<in> set ?log \<and> cp \<notin> set ?cl \<and>
      (cp \<in> set (rc_paths (run_context w app)) \<longrightarrow>
         cp \<in> set (rc_paths (run_context (fst (snd ?run)) app)))"
    if k: "known_app e cp"
  proof (intro conjI impI)
    have "ConsoleError (manifest_error cp) \<in> set (import_log (run_imports e w app))"
      unfolding run_imports_def import_loop_def
      by (rule manifest_logged_foldl[OF assms(3,4,5) k])
    with run_log_contains_imports[OF assms(1,2), of w]
    show "ConsoleError (manifest_error cp) \<in> set ?log" by auto
    show n: "cp \<notin> set ?cl" using k by (simp add: run_cleanup failed_unknown_def)
    assume "cp \<in> set (rc_paths (run_context w app))"
    with n show "cp \<in> set (rc_paths (run_context (fst (snd ?run)) app))" by (rule final_known)
  qed
  from cors inter req mods warn nofail unknown known show ?thesis by blast
qed

theorem manifest_failure_classified_witness:
  "''b'' \<in> set (run_identifiers (initial_world demo_definitions demo_inventory) demo_app)
   \<and> ''b'' \<notin> set (manifests demo_env) \<and> \<not> known_app demo_env ''b'' \<and> known_app known_env ''b''
   \<and> snd (snd (loadRuntimeWidgets known_env (initial_world demo_definitions demo_inventory))) =
       [AlertUpdate Loading,
        AlertUpdate (LoadingWidgets 1 2), CorsImport ''a'', Interleaved ''a'',
        AlertUpdate (LoadingWidgets 2 2), CorsImport ''b'', ConsoleError (manifest_error ''b''),
        AlertUpdate StillWorking, CompileModule ''AModule'',
        StateReported 1, AlertUpdate AlmostReady,
        LoadWidget 1, DynamicAdd 1,
        AlertClose, IsLoadedNext True]
   \<and> inventory (fst (snd (loadRuntimeWidgets known_env (initial_world demo_definitions demo_inventory)))) =
       demo_inventory
   \<and> fst (loadRuntimeWidgets demo_env (initial_world demo_definitions demo_inventory)) = Resolved
   \<and> cleanupWidgetContextPath (run_imports demo_env (initial_world demo_definitions demo_inventory) demo_app) = [''b'']
   \<and> rc_paths (run_context (fst (snd (loadRuntimeWidgets demo_env (initial_world demo_definitions demo_inventory))))
        demo_app) = [''a'']"
  using manifest_failure_classified
    [where e = demo_env and user = "''admin''" and app = demo_app and cp = "''b''"
       and w = "initial_world demo_definitions demo_inventory"]
    manifest_failure_classified
    [where e = known_env and user = "''admin''" and app = demo_app and cp = "''b''"
       and w = "initial_world demo_definitions demo_inventory"]
  by (simp add: known_env_def undeployed_app_def demo_defs run_defs requests_of_def
        entry_failed_def imported_module_def failed_unknown_def List.map_filter_simps)

text \<open>
  The claim as stated fails twice. With no application under the context path \<open>b\<close> the
  failed manifest import of \<open>b\<close> is not logged; with such an application it is logged, but
  no warning is surfaced.
\<close>

theorem manifest_failure_counterexample:
  "''b'' \<in> set (run_identifiers (initial_world demo_definitions demo_inventory) demo_app)
   \<and> ''b'' \<notin> set (manifests demo_env)
   \<and> \<not> known_app demo_env ''b''
   \<and> filter is_console_error (snd (snd (loadRuntimeWidgets demo_env (initial_world demo_definitions demo_inventory)))) = []
   \<and> ''b'' \<notin> set (manifests known_env)
   \<and> known_app known_env ''b''
   \<and> filter is_warning (snd (snd (loadRuntimeWidgets known_env (initial_world demo_definitions demo_inventory)))) = []"
  by (simp add: known_env_def undeployed_app_def demo_defs run_defs)

lemma switch_member:
  "p \<in> set (switch f es) \<Longrightarrow> \<exists>q \<in> set es. p \<in> set (f (snd q) (fst q))"
proof (induction f es rule: switch.induct)
  case (1 f)
  then show ?case by simp
next
  case (2 f t v)
  then show ?case by simp
next
  case (3 f t v t' v' rest)
  from "3.prems" consider "p \<in> set (takeWhile (\<lambda>(u, x). u < t') (f v t))"
    | "p \<in> set (switch f ((t', v') # rest))" by auto
  then show ?case
  proof cases
    case 1
    then have "p \<in> set (f v t)" by (rule set_takeWhileD[THEN conjunct1])
    then show ?thesis by simp
  next
    case 2
    from "3.IH"[OF this] show ?thesis by auto
  qed
qed

lemma isLoaded_subject_true:
  "(T, True) \<in> set (isLoaded_subject loaded t) \<Longrightarrow> \<exists>T'. loaded = Some T' \<and> T' \<le> T"
  by (auto simp: isLoaded_subject_def split: option.splits if_splits)

lemma first_true_member:
  assumes "q \<in> set (rx_first (rx_filter (\<lambda>loaded. loaded) signal) t)"
  shows "snd q \<and> q \<in> set (signal t)"
proof -
  from assms have "q \<in> set (take 1 (filter (\<lambda>(u, v). v) (signal t)))"
    unfolding rx_first_def rx_filter_def .
  then have "q \<in> set (filter (\<lambda>(u, v). v) (signal t))"
    by (rule in_set_takeD)
  then show ?thesis by (simp add: case_prod_beta)
qed

lemma first_true_never: "rx_first (rx_filter (\<lambda>loaded. loaded) (isLoaded_subject None)) t = []"
  by (simp add: rx_first_def rx_filter_def isLoaded_subject_def)

lemma first_true_later:
  "t < T \<Longrightarrow> rx_first (rx_filter (\<lambda>loaded. loaded) (isLoaded_subject (Some T))) t = [(T, True)]"
  by (simp add: rx_first_def rx_filter_def isLoaded_subject_def)

lemma first_true_now:
  "T \<le> t \<Longrightarrow> rx_first (rx_filter (\<lambda>loaded. loaded) (isLoaded_subject (Some T))) t = [(t, True)]"
  by (simp add: rx_first_def rx_filter_def isLoaded_subject_def)

lemma loadComponent_undefined:
  "loadComponent table static this None = this\<lparr>error := Some TypeError\<rparr>"
  by (simp add: loadComponent_def)

lemma takeWhile_none: "\<forall>q \<in> set ys. \<not> P q \<Longrightarrow> takeWhile P ys = []"
  by (cases ys) simp_all

lemma switch_constant:
  assumes "xs \<noteq> []"
    and "\<forall>p \<in> set xs. f (snd p) (fst p) = ys"
    and "\<forall>p \<in> set xs. \<forall>q \<in> set ys. fst p \<le> fst q"
  shows "switch f xs = ys"
  using assms
proof (induction f xs rule: switch.induct)
  case (1 f)
  then show ?case by simp
next
  case (2 f t v)
  then show ?case by simp
next
  case (3 f t v t' v' rest)
  from "3.prems"(2) have here: "f v t = ys" by simp
  from "3.prems"(3) have "\<forall>q \<in> set ys. t' \<le> fst q" by simp
  then have "\<forall>q \<in> set (f v t). \<not> (case q of (u, x) \<Rightarrow> u < t')"
    unfolding here by (auto simp: case_prod_beta)
  then have cut: "takeWhile (\<lambda>(u, x). u < t') (f v t) = []" by (rule takeWhile_none)
  have "switch f ((t', v') # rest) = ys"
    using "3.IH" "3.prems"(2,3) by simp
  with cut show ?case by simp
qed

lemma switch_empty: "\<forall>p \<in> set xs. f (snd p) (fst p) = [] \<Longrightarrow> switch f xs = []"
  by (induction f xs rule: switch.induct) simp_all

lemma wait_until_loaded:
  assumes "u \<le> T"
  shows "switch (\<lambda>loaded. getById)
           (rx_first (rx_filter (\<lambda>loaded. loaded) (isLoaded_subject (Some T))) u) = getById T"
proof (cases "u < T")
  case True
  then show ?thesis by (simp add: first_true_later)
next
  case False
  with assms have "u = T" by simp
  then show ?thesis by (simp add: first_true_now)
qed

lemma ngOnChanges_waits:
  assumes causal: "\<forall>s. \<forall>p \<in> set (getById s). s \<le> fst p"
    and waiting: "\<forall>p \<in> set (getById t). snd p = None \<or> isRuntimeLoaded (the (snd p))"
    and some: "getById t \<noteq> []"
    and early: "\<forall>p \<in> set (getById t). fst p \<le> T"
  shows "ngOnChanges getById (isLoaded_subject (Some T)) t = getById T"
  unfolding ngOnChanges_def rx_switchMap_def
proof (rule switch_constant[OF some])
  show "\<forall>p \<in> set (getById t).
      (if snd p = None \<or> isRuntimeLoaded (the (snd p))
       then \<lambda>t. switch (\<lambda>loaded. getById)
                  (rx_first (rx_filter (\<lambda>loaded. loaded) (isLoaded_subject (Some T))) t)
       else rx_of (snd p)) (fst p) = getById T"
  proof
    fix p assume p: "p \<in> set (getById t)"
    with waiting have w: "snd p = None \<or> isRuntimeLoaded (the (snd p))" by blast
    from early p have "fst p \<le> T" by blast
    from wait_until_loaded[OF this, of getById] w
    show "(if snd p = None \<or> isRuntimeLoaded (the (snd p))
       then \<lambda>t. switch (\<lambda>loaded. getById)
                  (rx_first (rx_filter (\<lambda>loaded. loaded) (isLoaded_subject (Some T))) t)
       else rx_of (snd p)) (fst p) = getById T" by simp
  qed
next
  show "\<forall>p \<in> set (getById t). \<forall>q \<in> set (getById T). fst p \<le> fst q"
  proof (intro ballI)
    fix p q assume "p \<in> set (getById t)" "q \<in> set (getById T)"
    with early causal have "fst p \<le> T" "T \<le> fst q" by blast+
    then show "fst p \<le> fst q" by simp
  qed
qed

lemma ngOnChanges_never:
  assumes "\<forall>p \<in> set (getById t). snd p = None \<or> isRuntimeLoaded (the (snd p))"
  shows "ngOnChanges getById (isLoaded_subject None) t = []"
  unfolding ngOnChanges_def rx_switchMap_def
proof (rule switch_empty, rule ballI)
  fix p assume "p \<in> set (getById t)"
  with assms have "snd p = None \<or> isRuntimeLoaded (the (snd p))" by blast
  then show "(if snd p = None \<or> isRuntimeLoaded (the (snd p))
       then \<lambda>t. switch (\<lambda>loaded. getById)
                  (rx_first (rx_filter (\<lambda>loaded. loaded) (isLoaded_subject None)) t)
       else rx_of (snd p)) (fst p) = []"
    by (simp add: first_true_never)
qed

subsection \<open>C2: a render request waits for the load signal\<close>

text \<open>
  Claim C2. \<open>getById$\<close> is any observable of the host that emits no earlier than it is
  subscribed to, and the request is made at time \<open>t\<close>. Every call of \<open>loadComponent\<close> the
  request makes is either for a definition the host registry holds that is not
  runtime-sourced, or is made when the load signal has become true. If the id resolves
  to no entry or to a runtime-sourced entry, then: while the signal never becomes true the
  request makes no call at all; when the signal becomes true at a later time \<open>T\<close> the
  request re-resolves the id at \<open>T\<close> and its calls are the emissions of \<open>getById$\<close>
  subscribed at \<open>T\<close>; when the signal is already true it re-resolves at once. A call
  of \<open>loadComponent\<close> with \<open>undefined\<close> sets the error of this instance and changes nothing
  else of it; so a request whose id still resolves to no entry at \<open>T\<close> ends with the error
  set, its view untouched.

  The same holds when \<open>getById$\<close> emits several times before the signal, as it does for an
  id that the load itself registers: if every emission up to \<open>T\<close> is \<open>undefined\<close> or a
  runtime-sourced definition, the request makes no call while the signal stays false (the
  instance is left as it was), and once the signal is true at \<open>T\<close> its calls are exactly the
  emissions of \<open>getById$\<close> subscribed at \<open>T\<close>, each handled by \<open>loadComponent\<close> with the table
  \<open>widgetFactories\<close> of its time. When the id then resolves to a runtime-sourced definition,
  the instance ends with the component created from the factory and the injector stored
  under its id (the component factory in mode \<open>component\<close>, the config component factory
  otherwise) and no error; with no entry under the id, or no config component factory, it
  ends with the error set. A request whose id resolves at once to a definition that is not
  runtime-sourced does not wait for the signal: its only call is for that definition, and
  the component (the config component in the other mode) is created from the host's own
  factory, or the error set when the host has none.
\<close>

theorem render_request_waits_for_load:
  assumes "\<forall>s. \<forall>p \<in> set (getById s). s \<le> fst p"
  shows
    "(\<forall>p \<in> set (ngOnChanges getById (isLoaded_subject loaded) t).
        (\<exists>d. snd p = Some d \<and> \<not> isRuntimeLoaded d \<and> p \<in> set (getById t)) \<or>
        (\<exists>T. loaded = Some T \<and> T \<le> fst p))
     \<and> (\<forall>c. getById t = [(t, c)] \<and> (c = None \<or> isRuntimeLoaded (the c)) \<longrightarrow>
          (loaded = None \<longrightarrow> ngOnChanges getById (isLoaded_subject loaded) t = []) \<and>
          (\<forall>T. loaded = Some T \<and> t < T \<longrightarrow>
             ngOnChanges getById (isLoaded_subject loaded) t = getById T \<and>
             (getById T = [(T, None)] \<longrightarrow>
                render_request tables static getById (isLoaded_subject loaded) this t =
                  this\<lparr>error := Some TypeError\<rparr>)) \<and>
          (\<forall>T. loaded = Some T \<and> T \<le> t \<longrightarrow>
             ngOnChanges getById (isLoaded_subject loaded) t = getById t))
     \<and> loadComponent table static this None = this\<lparr>error := Some TypeError\<rparr>
     \<and> ((\<forall>p \<in> set (getById t). snd p = None \<or> isRuntimeLoaded (the (snd p))) \<longrightarrow>
          (loaded = None \<longrightarrow>
             ngOnChanges getById (isLoaded_subject loaded) t = [] \<and>
             render_request tables static getById (isLoaded_subject loaded) this t = this) \<and>
          (\<forall>T. loaded = Some T \<and> getById t \<noteq> [] \<and> (\<forall>p \<in> set (getById t). fst p \<le> T) \<longrightarrow>
             ngOnChanges getById (isLoaded_subject loaded) t = getById T \<and>
             render_request tables static getById (isLoaded_subject loaded) this t =
               foldl (\<lambda>this' (u, cmp). loadComponent (tables u) static this' cmp) this (getById T) \<and>
             (getById T = [(T, None)] \<longrightarrow>
                render_request tables static getById (isLoaded_subject loaded) this t =
                  this\<lparr>error := Some TypeError\<rparr>) \<and>
             (\<forall>d. getById T = [(T, Some d)] \<and> isRuntimeLoaded d \<longrightarrow>
                (map_of (tables T) (componentId this) = None \<longrightarrow>
                   render_request tables static getById (isLoaded_subject loaded) this t =
                     this\<lparr>error := Some TypeError\<rparr>) \<and>
                (\<forall>entry. map_of (tables T) (componentId this) = Some entry \<longrightarrow>
                   (mode this = ''component'' \<longrightarrow>
                      render_request tables static getById (isLoaded_subject loaded) this t =
                        this\<lparr>error := None,
                             view_container := Rendered (componentFactory entry)
                               (Some (injector entry)) (config this)\<rparr>) \<and>
                   (\<forall>factory. mode this \<noteq> ''component'' \<and>
                        configComponentFactory entry = Some factory \<longrightarrow>
                      render_request tables static getById (isLoaded_subject loaded) this t =
                        this\<lparr>error := None,
                             view_container := Rendered factory (Some (injector entry)) (config this)\<rparr>) \<and>
                   (mode this \<noteq> ''component'' \<and> configComponentFactory entry = None \<longrightarrow>
                      render_request tables static getById (isLoaded_subject loaded) this t =
                        this\<lparr>error := Some TypeError, view_container := NoView\<rparr>)))))
     \<and> (\<forall>d. getById t = [(t, Some d)] \<and> \<not> isRuntimeLoaded d \<longrightarrow>
          ngOnChanges getById (isLoaded_subject loaded) t = [(t, Some d)] \<and>
          (mode this = ''component'' \<and> component d \<in> set static \<longrightarrow>
             render_request tables static getById (isLoaded_subject loaded) this t =
               this\<lparr>error := None,
                    view_container := Rendered (Factory ''host'' (component d)) None (config this)\<rparr>) \<and>
          (mode this = ''component'' \<and> component d \<notin> set static \<longrightarrow>
             render_request tables static getById (isLoaded_subject loaded) this t =
               this\<lparr>error := Some NoComponentFactory\<rparr>) \<and>
          (\<forall>c. mode this \<noteq> ''component'' \<and> configComponent d = Some c \<and> c \<in> set static \<longrightarrow>
             render_request tables static getById (isLoaded_subject loaded) this t =
               this\<lparr>error := None,
                    view_container := Rendered (Factory ''host'' c) None (config this)\<rparr>) \<and>
          (mode this \<noteq> ''component'' \<and>
             (configComponent d = None \<or> (\<exists>c. configComponent d = Some c \<and> c \<notin> set static)) \<longrightarrow>
             render_request tables static getById (isLoaded_subject loaded) this t =
               this\<lparr>error := Some NoComponentFactory\<rparr>))"
proof -
  let ?sig = "isLoaded_subject loaded"
  let ?wait = "\<lambda>s. switch (\<lambda>loaded. getById) (rx_first (rx_filter (\<lambda>loaded. loaded) ?sig) s)"
  have safety: "(\<exists>d. snd p = Some d \<and> \<not> isRuntimeLoaded d \<and> p \<in> set (getById t)) \<or>
        (\<exists>T. loaded = Some T \<and> T \<le> fst p)"
    if p: "p \<in> set (ngOnChanges getById ?sig t)" for p
  proof -
    from switch_member[OF p[unfolded ngOnChanges_def rx_switchMap_def]]
    obtain q where q: "q \<in> set (getById t)"
      and pq: "p \<in> set ((if snd q = None \<or> isRuntimeLoaded (the (snd q)) then ?wait
                           else rx_of (snd q)) (fst q))"
      by blast
    show ?thesis
    proof (cases "snd q = None \<or> isRuntimeLoaded (the (snd q))")
      case False
      with pq have "p \<in> set (rx_of (snd q) (fst q))" by simp
      then have "p = q" by (simp add: rx_of_def)
      with False q show ?thesis by auto
    next
      case True
      with pq have "p \<in> set (switch (\<lambda>loaded. getById)
          (rx_first (rx_filter (\<lambda>loaded. loaded) ?sig) (fst q)))"
        by simp
      from switch_member[OF this] obtain r where
        r: "r \<in> set (rx_first (rx_filter (\<lambda>loaded. loaded) ?sig) (fst q))"
        and pr: "p \<in> set (getById (fst r))" by blast
      obtain T b where rT: "r = (T, b)" by (cases r)
      from first_true_member[OF r] rT have "(T, True) \<in> set (?sig (fst q))" by auto
      from isLoaded_subject_true[OF this] obtain T' where T': "loaded = Some T'" "T' \<le> fst r"
        using rT by auto
      from assms pr have "fst r \<le> fst p" by blast
      with T' show ?thesis by simp
    qed
  qed
  have pipe: "ngOnChanges getById ?sig t = ?wait t"
    if "getById t = [(t, c)]" "c = None \<or> isRuntimeLoaded (the c)" for c
    using that by (auto simp: ngOnChanges_def rx_switchMap_def)
  have never: "ngOnChanges getById ?sig t = []"
    if "getById t = [(t, c)]" "c = None \<or> isRuntimeLoaded (the c)" "loaded = None" for c
    using pipe[OF that(1,2)] that(3) by (simp add: rx_switchMap_def first_true_never)
  have later: "ngOnChanges getById ?sig t = getById T"
    if "getById t = [(t, c)]" "c = None \<or> isRuntimeLoaded (the c)" "loaded = Some T" "t < T" for c T
    using pipe[OF that(1,2)] that(3,4) by (simp add: rx_switchMap_def first_true_later)
  have now: "ngOnChanges getById ?sig t = getById t"
    if "getById t = [(t, c)]" "c = None \<or> isRuntimeLoaded (the c)" "loaded = Some T" "T \<le> t" for c T
    using pipe[OF that(1,2)] that(3,4) by (simp add: rx_switchMap_def first_true_now)
  have failed: "render_request tables static getById ?sig this t = this\<lparr>error := Some TypeError\<rparr>"
    if "getById t = [(t, c)]" "c = None \<or> isRuntimeLoaded (the c)" "loaded = Some T" "t < T"
      "getById T = [(T, None)]" for c T
    using later[OF that(1,2,3,4)] that(5)
    by (simp add: render_request_def loadComponent_undefined)
  have c1: "\<forall>p \<in> set (ngOnChanges getById ?sig t).
        (\<exists>d. snd p = Some d \<and> \<not> isRuntimeLoaded d \<and> p \<in> set (getById t)) \<or>
        (\<exists>T. loaded = Some T \<and> T \<le> fst p)"
    using safety by blast
  have c2: "\<forall>c. getById t = [(t, c)] \<and> (c = None \<or> isRuntimeLoaded (the c)) \<longrightarrow>
          (loaded = None \<longrightarrow> ngOnChanges getById ?sig t = []) \<and>
          (\<forall>T. loaded = Some T \<and> t < T \<longrightarrow>
             ngOnChanges getById ?sig t = getById T \<and>
             (getById T = [(T, None)] \<longrightarrow>
                render_request tables static getById ?sig this t =
                  this\<lparr>error := Some TypeError\<rparr>)) \<and>
          (\<forall>T. loaded = Some T \<and> T \<le> t \<longrightarrow>
             ngOnChanges getById ?sig t = getById t)"
  proof (intro conjI allI impI)
    fix c assume "getById t = [(t, c)] \<and> (c = None \<or> isRuntimeLoaded (the c))" "loaded = None"
    then show "ngOnChanges getById ?sig t = []" using never by blast
  next
    fix c T assume "getById t = [(t, c)] \<and> (c = None \<or> isRuntimeLoaded (the c))"
      "loaded = Some T \<and> t < T"
    then show "ngOnChanges getById ?sig t = getById T" using later by blast
  next
    fix c T assume "getById t = [(t, c)] \<and> (c = None \<or> isRuntimeLoaded (the c))"
      "loaded = Some T \<and> t < T" "getById T = [(T, None)]"
    then show "render_request tables static getById ?sig this t = this\<lparr>error := Some TypeError\<rparr>"
      using failed by blast
  next
    fix c T assume "getById t = [(t, c)] \<and> (c = None \<or> isRuntimeLoaded (the c))"
      "loaded = Some T \<and> T \<le> t"
    then show "ngOnChanges getById ?sig t = getById t" using now by blast
  qed
  have c3: "loadComponent table static this None = this\<lparr>error := Some TypeError\<rparr>"
    by (rule loadComponent_undefined)
  have c4: "(\<forall>p \<in> set (getById t). snd p = None \<or> isRuntimeLoaded (the (snd p))) \<longrightarrow>
          (loaded = None \<longrightarrow>
             ngOnChanges getById ?sig t = [] \<and>
             render_request tables static getById ?sig this t = this) \<and>
          (\<forall>T. loaded = Some T \<and> getById t \<noteq> [] \<and> (\<forall>p \<in> set (getById t). fst p \<le> T) \<longrightarrow>
             ngOnChanges getById ?sig t = getById T \<and>
             render_request tables static getById ?sig this t =
               foldl (\<lambda>this' (u, cmp). loadComponent (tables u) static this' cmp) this (getById T) \<and>
             (getById T = [(T, None)] \<longrightarrow>
                render_request tables static getById ?sig this t =
                  this\<lparr>error := Some TypeError\<rparr>) \<and>
             (\<forall>d. getById T = [(T, Some d)] \<and> isRuntimeLoaded d \<longrightarrow>
                (map_of (tables T) (componentId this) = None \<longrightarrow>
                   render_request tables static getById ?sig this t =
                     this\<lparr>error := Some TypeError\<rparr>) \<and>
                (\<forall>entry. map_of (tables T) (componentId this) = Some entry \<longrightarrow>
                   (mode this = ''component'' \<longrightarrow>
                      render_request tables static getById ?sig this t =
                        this\<lparr>error := None,
                             view_container := Rendered (componentFactory entry)
                               (Some (injector entry)) (config this)\<rparr>) \<and>
                   (\<forall>factory. mode this \<noteq> ''component'' \<and>
                        configComponentFactory entry = Some factory \<longrightarrow>
                      render_request tables static getById ?sig this t =
                        this\<lparr>error := None,
                             view_container := Rendered factory (Some (injector entry)) (config this)\<rparr>) \<and>
                   (mode this \<noteq> ''component'' \<and> configComponentFactory entry = None \<longrightarrow>
                      render_request tables static getById ?sig this t =
                        this\<lparr>error := Some TypeError, view_container := NoView\<rparr>))))"
  proof (rule impI, rule conjI)
    assume w: "\<forall>p \<in> set (getById t). snd p = None \<or> isRuntimeLoaded (the (snd p))"
    show "loaded = None \<longrightarrow>
             ngOnChanges getById ?sig t = [] \<and>
             render_request tables static getById ?sig this t = this"
      using ngOnChanges_never[where getById = getById and t = t, OF w]
      by (auto simp: render_request_def)
  next
    assume w: "\<forall>p \<in> set (getById t). snd p = None \<or> isRuntimeLoaded (the (snd p))"
    show "\<forall>T. loaded = Some T \<and> getById t \<noteq> [] \<and> (\<forall>p \<in> set (getById t). fst p \<le> T) \<longrightarrow>
             ngOnChanges getById ?sig t = getById T \<and>
             render_request tables static getById ?sig this t =
               foldl (\<lambda>this' (u, cmp). loadComponent (tables u) static this' cmp) this (getById T) \<and>
             (getById T = [(T, None)] \<longrightarrow>
                render_request tables static getById ?sig this t =
                  this\<lparr>error := Some TypeError\<rparr>) \<and>
             (\<forall>d. getById T = [(T, Some d)] \<and> isRuntimeLoaded d \<longrightarrow>
                (map_of (tables T) (componentId this) = None \<longrightarrow>
                   render_request tables static getById ?sig this t =
                     this\<lparr>error := Some TypeError\<rparr>) \<and>
                (\<forall>entry. map_of (tables T) (componentId this) = Some entry \<longrightarrow>
                   (mode this = ''component'' \<longrightarrow>
                      render_request tables static getById ?sig this t =
                        this\<lparr>error := None,
                             view_container := Rendered (componentFactory entry)
                               (Some (injector entry)) (config this)\<rparr>) \<and>
                   (\<forall>factory. mode this \<noteq> ''component'' \<and>
                        configComponentFactory entry = Some factory \<longrightarrow>
                      render_request tables static getById ?sig this t =
                        this\<lparr>error := None,
                             view_container := Rendered factory (Some (injector entry)) (config this)\<rparr>) \<and>
                   (mode this \<noteq> ''component'' \<and> configComponentFactory entry = None \<longrightarrow>
                      render_request tables static getById ?sig this t =
                        this\<lparr>error := Some TypeError, view_container := NoView\<rparr>)))"
    proof (rule allI, rule impI, elim conjE)
      fix T
      assume l: "loaded = Some T" and some: "getById t \<noteq> []"
        and early: "\<forall>p \<in> set (getById t). fst p \<le> T"
      have calls: "ngOnChanges getById ?sig t = getById T"
        unfolding l
        by (rule ngOnChanges_waits[where getById = getById and t = t and T = T,
              OF assms w some early])
      have rr: "render_request tables static getById ?sig this t =
          foldl (\<lambda>this' (u, cmp). loadComponent (tables u) static this' cmp) this (getById T)"
        by (simp add: render_request_def calls)
      show "ngOnChanges getById ?sig t = getById T \<and>
             render_request tables static getById ?sig this t =
               foldl (\<lambda>this' (u, cmp). loadComponent (tables u) static this' cmp) this (getById T) \<and>
             (getById T = [(T, None)] \<longrightarrow>
                render_request tables static getById ?sig this t =
                  this\<lparr>error := Some TypeError\<rparr>) \<and>
             (\<forall>d. getById T = [(T, Some d)] \<and> isRuntimeLoaded d \<longrightarrow>
                (map_of (tables T) (componentId this) = None \<longrightarrow>
                   render_request tables static getById ?sig this t =
                     this\<lparr>error := Some TypeError\<rparr>) \<and>
                (\<forall>entry. map_of (tables T) (componentId this) = Some entry \<longrightarrow>
                   (mode this = ''component'' \<longrightarrow>
                      render_request tables static getById ?sig this t =
                        this\<lparr>error := None,
                             view_container := Rendered (componentFactory entry)
                               (Some (injector entry)) (config this)\<rparr>) \<and>
                   (\<forall>factory. mode this \<noteq> ''component'' \<and>
                        configComponentFactory entry = Some factory \<longrightarrow>
                      render_request tables static getById ?sig this t =
                        this\<lparr>error := None,
                             view_container := Rendered factory (Some (injector entry)) (config this)\<rparr>) \<and>
                   (mode this \<noteq> ''component'' \<and> configComponentFactory entry = None \<longrightarrow>
                      render_request tables static getById ?sig this t =
                        this\<lparr>error := Some TypeError, view_container := NoView\<rparr>)))"
        apply (intro conjI)
        subgoal by (fact calls)
        subgoal by (fact rr)
        subgoal unfolding rr by (simp add: loadComponent_def)
        subgoal unfolding rr by (simp add: loadComponent_def Let_def)
        done
    qed
  qed
  have c5: "\<forall>d. getById t = [(t, Some d)] \<and> \<not> isRuntimeLoaded d \<longrightarrow>
          ngOnChanges getById ?sig t = [(t, Some d)] \<and>
          (mode this = ''component'' \<and> component d \<in> set static \<longrightarrow>
             render_request tables static getById ?sig this t =
               this\<lparr>error := None,
                    view_container := Rendered (Factory ''host'' (component d)) None (config this)\<rparr>) \<and>
          (mode this = ''component'' \<and> component d \<notin> set static \<longrightarrow>
             render_request tables static getById ?sig this t =
               this\<lparr>error := Some NoComponentFactory\<rparr>) \<and>
          (\<forall>c. mode this \<noteq> ''component'' \<and> configComponent d = Some c \<and> c \<in> set static \<longrightarrow>
             render_request tables static getById ?sig this t =
               this\<lparr>error := None,
                    view_container := Rendered (Factory ''host'' c) None (config this)\<rparr>) \<and>
          (mode this \<noteq> ''component'' \<and>
             (configComponent d = None \<or> (\<exists>c. configComponent d = Some c \<and> c \<notin> set static)) \<longrightarrow>
             render_request tables static getById ?sig this t =
               this\<lparr>error := Some NoComponentFactory\<rparr>)"
    by (auto simp: render_request_def ngOnChanges_def rx_switchMap_def rx_of_def
          loadComponent_def Let_def)
  show ?thesis
    by (rule conjI[OF c1 conjI[OF c2 conjI[OF c3 conjI[OF c4 c5]]]])
qed

theorem render_request_waits_for_load_witness:
  "ngOnChanges demo_getById (isLoaded_subject (Some 5)) 0 =
     [(5, Some (demo_widget\<lparr>isRuntimeLoaded := True\<rparr>))]
   \<and> render_request demo_tables [] demo_getById (isLoaded_subject (Some 5)) demo_instance 0 =
       demo_instance\<lparr>view_container :=
         Rendered (Factory ''a-injector'' ''W1Component'') (Some ''a-injector'') ''{}''\<rparr>
   \<and> ngOnChanges demo_getById (isLoaded_subject None) 0 = []
   \<and> render_request demo_tables [] demo_getById (isLoaded_subject None) demo_instance 0 =
       demo_instance
   \<and> ngOnChanges missing_getById (isLoaded_subject (Some 5)) 0 = [(5, None)]
   \<and> render_request (\<lambda>u. []) [] missing_getById (isLoaded_subject (Some 5)) demo_instance 0 =
       demo_instance\<lparr>error := Some TypeError\<rparr>
   \<and> ngOnChanges builtin_getById (isLoaded_subject None) 0 = [(0, Some builtin_widget)]
   \<and> render_request demo_tables [''Builtin''] builtin_getById (isLoaded_subject None)
       (demo_instance\<lparr>componentId := ''builtin''\<rparr>) 0 =
       demo_instance\<lparr>componentId := ''builtin'',
         view_container := Rendered (Factory ''host'' ''Builtin'') None ''{}''\<rparr>"
proof -
  have c1: "\<forall>s. \<forall>p \<in> set (demo_getById s). s \<le> fst p"
    by (simp add: demo_getById_def)
  have c2: "\<forall>s. \<forall>p \<in> set (missing_getById s). s \<le> fst p"
    by (simp add: missing_getById_def)
  have c3: "\<forall>s. \<forall>p \<in> set (builtin_getById s). s \<le> fst p"
    by (simp add: builtin_getById_def)
  from render_request_waits_for_load[where getById = demo_getById and loaded = "Some 5" and t = 0
        and tables = demo_tables and static = "[]" and this = demo_instance
        and table = "[]", OF c1]
    render_request_waits_for_load[where getById = demo_getById and loaded = None and t = 0
        and tables = demo_tables and static = "[]" and this = demo_instance
        and table = "[]", OF c1]
    render_request_waits_for_load[where getById = missing_getById and loaded = "Some 5" and t = 0
        and tables = "\<lambda>u. []" and static = "[]" and this = demo_instance
        and table = "[]", OF c2]
    render_request_waits_for_load[where getById = builtin_getById and loaded = None and t = 0
        and tables = demo_tables and static = "[''Builtin'']"
        and this = "demo_instance\<lparr>componentId := ''builtin''\<rparr>"
        and table = "[]", OF c3]
  show ?thesis
    by (simp add: demo_getById_def missing_getById_def builtin_getById_def demo_tables_def
          demo_instance_def demo_widget_def builtin_widget_def loadComponent_def Let_def)
qed

end
